theory Spec2Isabelle
  imports Main "HOL-Library.AList"
begin

section \<open>Python values\<close>

text \<open>
  The program keeps its transcript as plain Python dictionaries and lists and writes
  them with the \<open>json\<close> module. A dictionary is an association list in insertion
  order, the order \<open>json.dumps\<close> prints it in; its keys are distinct. The values
  covered are \<open>None\<close>, truth values, integers, strings of code points below 256,
  lists and dictionaries; floating point numbers and other characters are left out.
\<close>

datatype json =
    JNull
  | JBool bool
  | JInt int
  | JStr string
  | JArr "json list"
  | JObj "(string \<times> json) list"

text \<open>
  The \<open>json\<close> module is not part of the program: what the commands call of it is
  a parameter. \<open>json.dumps(v)\<close> gives a text or raises; \<open>json.dump(v, f, indent=n)\<close>
  writes a text to the file and may raise after it; \<open>json.loads(s)\<close>, and
  \<open>json.load(f)\<close> on a file that holds \<open>s\<close>, gives a value or raises. An
  exception is the text \<open>str(e)\<close> gives.
\<close>

record json_module =
  json_dumps :: "json \<Rightarrow> string + string"
  json_dump :: "json \<Rightarrow> nat \<Rightarrow> string \<times> string option"
  json_loads :: "string \<Rightarrow> string + json"

text \<open>\<open>d.get(k)\<close> on a value that may or may not be a dictionary.\<close>

fun dict_get :: "json \<Rightarrow> string \<Rightarrow> json option" where
  "dict_get (JObj d) k = map_of d k"
| "dict_get _ k = None"

text \<open>Python truthiness of an optional string: \<open>None\<close> and \<open>''\<close> are falsy.\<close>

fun nonempty :: "string option \<Rightarrow> string option" where
  "nonempty None = None"
| "nonempty (Some s) = (if s = [] then None else Some s)"

subsection \<open>String methods\<close>

text \<open>\<open>str.isspace\<close>, \<open>str.lower\<close>, \<open>str.strip\<close>, \<open>str.split\<close> without
  arguments and \<open>str.startswith\<close>, on code points below 256.\<close>

definition isspace :: "char \<Rightarrow> bool" where
  "isspace c =
     (let n = (of_char c :: nat) in
      (9 \<le> n \<and> n \<le> 13) \<or> (28 \<le> n \<and> n \<le> 32) \<or> n = 133 \<or> n = 160)"

definition lower_char :: "char \<Rightarrow> char" where
  "lower_char c =
     (let n = (of_char c :: nat) in
      if (65 \<le> n \<and> n \<le> 90) \<or> (192 \<le> n \<and> n \<le> 222 \<and> n \<noteq> 215)
      then char_of (n + 32) else c)"

definition lower :: "string \<Rightarrow> string" where
  "lower s = map lower_char s"

definition strip :: "string \<Rightarrow> string" where
  "strip s = rev (dropWhile isspace (rev (dropWhile isspace s)))"

fun split_words :: "string \<Rightarrow> string \<Rightarrow> string list" where
  "split_words word [] = (if word = [] then [] else [word])"
| "split_words word (c # cs) =
     (if isspace c
      then (if word = [] then split_words [] cs else word # split_words [] cs)
      else split_words (word @ [c]) cs)"

definition str_split :: "string \<Rightarrow> string list" where
  "str_split s = split_words [] s"

definition startswith :: "string \<Rightarrow> string \<Rightarrow> bool" where
  "startswith s p = (take (length p) s = p)"

subsection \<open>An encoder\<close>

text \<open>
  To run the commands on examples, and to show that what the theorems ask of the
  \<open>json\<close> module can be had, here is an encoder and a decoder for the values above.
  The encoder writes as \<open>json.dumps\<close> does with its default settings:
  \<open>ensure_ascii\<close>, and the separators \<open>', '\<close> and \<open>': '\<close> without
  \<open>indent\<close>, \<open>','\<close> and \<open>': '\<close> with it.
\<close>

definition digit_char :: "nat \<Rightarrow> char" where
  "digit_char d = char_of (48 + d)"

fun show_nat :: "nat \<Rightarrow> string" where
  "show_nat n = (if n < 10 then [digit_char n] else show_nat (n div 10) @ [digit_char (n mod 10)])"

declare show_nat.simps [simp del]

definition show_int :: "int \<Rightarrow> string" where
  "show_int i = (if i < 0 then CHR ''-'' # show_nat (nat (- i)) else show_nat (nat i))"

definition hex_char :: "nat \<Rightarrow> char" where
  "hex_char d = (if d < 10 then char_of (48 + d) else char_of (87 + d))"

definition escape_char :: "char \<Rightarrow> string" where
  "escape_char c =
     (if c = CHR 0x22 then [CHR 0x5C, CHR 0x22]
      else if c = CHR 0x5C then [CHR 0x5C, CHR 0x5C]
      else if c = CHR 0x0A then [CHR 0x5C, CHR ''n'']
      else if c = CHR 0x0D then [CHR 0x5C, CHR ''r'']
      else if c = CHR 0x09 then [CHR 0x5C, CHR ''t'']
      else if c = CHR 0x08 then [CHR 0x5C, CHR ''b'']
      else if c = CHR 0x0C then [CHR 0x5C, CHR ''f'']
      else if (of_char c :: nat) < 32 \<or> 126 < (of_char c :: nat)
      then [CHR 0x5C, CHR ''u'', CHR ''0'', CHR ''0'',
            hex_char (of_char c div 16), hex_char (of_char c mod 16)]
      else [c])"

definition encode_string :: "string \<Rightarrow> string" where
  "encode_string s = CHR 0x22 # concat (map escape_char s) @ [CHR 0x22]"

definition newline_indent :: "nat option \<Rightarrow> nat \<Rightarrow> string" where
  "newline_indent indent level =
     (case indent of None \<Rightarrow> [] | Some k \<Rightarrow> CHR 0x0A # replicate (k * level) CHR '' '')"

definition item_separator :: "nat option \<Rightarrow> nat \<Rightarrow> string" where
  "item_separator indent level =
     (case indent of None \<Rightarrow> '', '' | Some k \<Rightarrow> '','' @ newline_indent indent level)"

fun encode :: "nat option \<Rightarrow> nat \<Rightarrow> json \<Rightarrow> string"
  and encode_items :: "nat option \<Rightarrow> nat \<Rightarrow> json list \<Rightarrow> string"
  and encode_members :: "nat option \<Rightarrow> nat \<Rightarrow> (string \<times> json) list \<Rightarrow> string" where
  "encode indent level JNull = ''null''"
| "encode indent level (JBool b) = (if b then ''true'' else ''false'')"
| "encode indent level (JInt i) = show_int i"
| "encode indent level (JStr s) = encode_string s"
| "encode indent level (JArr xs) =
     (if xs = [] then ''[]''
      else ''['' @ newline_indent indent (Suc level) @ encode_items indent (Suc level) xs
           @ newline_indent indent level @ '']'')"
| "encode indent level (JObj kvs) =
     (if kvs = [] then ''{}''
      else ''{'' @ newline_indent indent (Suc level) @ encode_members indent (Suc level) kvs
           @ newline_indent indent level @ ''}'')"
| "encode_items indent level [] = []"
| "encode_items indent level (x # xs) =
     encode indent level x
     @ (if xs = [] then [] else item_separator indent level @ encode_items indent level xs)"
| "encode_members indent level [] = []"
| "encode_members indent level ((k, v) # kvs) =
     encode_string k @ '': '' @ encode indent level v
     @ (if kvs = [] then [] else item_separator indent level @ encode_members indent level kvs)"


subsection \<open>A decoder\<close>

text \<open>
  The decoder reads one value between optional white space. Its recursion is bounded by
  the length of the text, a bound that every text written by the encoder stays within
  (\<open>parse_encoded\<close> below). It is not \<open>json.loads\<close>: a number with a fraction
  or an exponent, \<open>NaN\<close>, \<open>Infinity\<close> and an escape of a code point from 256
  on have no value here and are refused, and there is no limit on nesting or on the
  digits of a number.
\<close>

definition is_ws :: "char \<Rightarrow> bool" where
  "is_ws c = (c = CHR '' '' \<or> c = CHR 0x09 \<or> c = CHR 0x0A \<or> c = CHR 0x0D)"

definition skip_ws :: "string \<Rightarrow> string" where
  "skip_ws s = dropWhile is_ws s"

definition is_digit :: "char \<Rightarrow> bool" where
  "is_digit c = (48 \<le> (of_char c :: nat) \<and> (of_char c :: nat) \<le> 57)"

definition digit_val :: "char \<Rightarrow> nat" where
  "digit_val c = of_char c - 48"

definition hex_val :: "char \<Rightarrow> nat option" where
  "hex_val c =
     (let n = (of_char c :: nat) in
      if 48 \<le> n \<and> n \<le> 57 then Some (n - 48)
      else if 97 \<le> n \<and> n \<le> 102 then Some (n - 87)
      else if 65 \<le> n \<and> n \<le> 70 then Some (n - 55)
      else None)"

definition unescape :: "char \<Rightarrow> char option" where
  "unescape e =
     (if e = CHR 0x22 then Some (CHR 0x22)
      else if e = CHR 0x5C then Some (CHR 0x5C)
      else if e = CHR ''/'' then Some (CHR ''/'')
      else if e = CHR ''b'' then Some (CHR 0x08)
      else if e = CHR ''f'' then Some (CHR 0x0C)
      else if e = CHR ''n'' then Some (CHR 0x0A)
      else if e = CHR ''r'' then Some (CHR 0x0D)
      else if e = CHR ''t'' then Some (CHR 0x09)
      else None)"

definition hex4 :: "char \<Rightarrow> char \<Rightarrow> char \<Rightarrow> char \<Rightarrow> nat option" where
  "hex4 a b c d =
     (case (hex_val a, hex_val b, hex_val c, hex_val d) of
        (Some x, Some y, Some z, Some w) \<Rightarrow> Some (((x * 16 + y) * 16 + z) * 16 + w)
      | _ \<Rightarrow> None)"

definition cons_char :: "char \<Rightarrow> (string \<times> string) option \<Rightarrow> (string \<times> string) option" where
  "cons_char c res = (case res of None \<Rightarrow> None | Some (s, r) \<Rightarrow> Some (c # s, r))"

fun scanstring :: "string \<Rightarrow> (string \<times> string) option" where
  "scanstring [] = None"
| "scanstring (c # cs) =
     (if c = CHR 0x22 then Some ([], cs)
      else if c = CHR 0x5C then
        (case cs of
           [] \<Rightarrow> None
         | e # r \<Rightarrow>
             if e = CHR ''u'' then
               (case r of
                  h1 # h2 # h3 # h4 # r' \<Rightarrow>
                    (case hex4 h1 h2 h3 h4 of
                       None \<Rightarrow> None
                     | Some n \<Rightarrow> if n < 256 then cons_char (char_of n) (scanstring r') else None)
                | _ \<Rightarrow> None)
             else (case unescape e of
                     None \<Rightarrow> None
                   | Some ch \<Rightarrow> cons_char ch (scanstring r)))
      else if (of_char c :: nat) < 32 then None
      else cons_char c (scanstring cs))"

definition read_nat :: "string \<Rightarrow> nat" where
  "read_nat ds = foldl (\<lambda>n c. 10 * n + digit_val c) 0 ds"

definition scan_nat :: "string \<Rightarrow> (nat \<times> string) option" where
  "scan_nat s =
     (case s of
        [] \<Rightarrow> None
      | c # r \<Rightarrow>
          if c = CHR ''0'' then Some (0, r)
          else if is_digit c then Some (read_nat (takeWhile is_digit s), dropWhile is_digit s)
          else None)"

definition scan_int :: "string \<Rightarrow> (int \<times> string) option" where
  "scan_int s =
     (case s of
        [] \<Rightarrow> None
      | c # r \<Rightarrow>
          if c = CHR ''-'' then map_option (\<lambda>(n, r'). (- int n, r')) (scan_nat r)
          else map_option (\<lambda>(n, r'). (int n, r')) (scan_nat s))"

text \<open>\<open>dict(pairs)\<close>: a later pair replaces the value of an earlier one with the same key.\<close>

definition dict_of_pairs :: "(string \<times> json) list \<Rightarrow> (string \<times> json) list" where
  "dict_of_pairs ps = foldl (\<lambda>d (k, v). AList.update k v d) [] ps"

fun parse_value :: "nat \<Rightarrow> string \<Rightarrow> (json \<times> string) option"
  and parse_items :: "nat \<Rightarrow> string \<Rightarrow> (json list \<times> string) option"
  and parse_members :: "nat \<Rightarrow> string \<Rightarrow> ((string \<times> json) list \<times> string) option" where
  "parse_value 0 s = None"
| "parse_value (Suc n) s =
     (case s of
        [] \<Rightarrow> None
      | c # r \<Rightarrow>
          if c = CHR 0x22 then map_option (\<lambda>(t, r'). (JStr t, r')) (scanstring r)
          else if c = CHR ''{'' then
            (case skip_ws r of
               [] \<Rightarrow> None
             | d # r' \<Rightarrow>
                 if d = CHR ''}'' then Some (JObj [], r')
                 else map_option (\<lambda>(ps, r''). (JObj (dict_of_pairs ps), r''))
                        (parse_members n (d # r')))
          else if c = CHR ''['' then
            (case skip_ws r of
               [] \<Rightarrow> None
             | d # r' \<Rightarrow>
                 if d = CHR '']'' then Some (JArr [], r')
                 else map_option (\<lambda>(vs, r''). (JArr vs, r'')) (parse_items n (d # r')))
          else if take 4 s = ''null'' then Some (JNull, drop 4 s)
          else if take 4 s = ''true'' then Some (JBool True, drop 4 s)
          else if take 5 s = ''false'' then Some (JBool False, drop 5 s)
          else map_option (\<lambda>(i, r'). (JInt i, r')) (scan_int s))"
| "parse_items 0 s = None"
| "parse_items (Suc n) s =
     (case parse_value n s of
        None \<Rightarrow> None
      | Some (v, r) \<Rightarrow>
          (case skip_ws r of
             [] \<Rightarrow> None
           | c # r' \<Rightarrow>
               if c = CHR '']'' then Some ([v], r')
               else if c = CHR '','' then
                 map_option (\<lambda>(vs, r''). (v # vs, r'')) (parse_items n (skip_ws r'))
               else None))"
| "parse_members 0 s = None"
| "parse_members (Suc n) s =
     (case s of
        [] \<Rightarrow> None
      | q # r \<Rightarrow>
          if q \<noteq> CHR 0x22 then None
          else
            (case scanstring r of
               None \<Rightarrow> None
             | Some (k, r1) \<Rightarrow>
                 (case skip_ws r1 of
                    [] \<Rightarrow> None
                  | c # r2 \<Rightarrow>
                      if c \<noteq> CHR '':'' then None
                      else
                        (case parse_value n (skip_ws r2) of
                           None \<Rightarrow> None
                         | Some (v, r3) \<Rightarrow>
                             (case skip_ws r3 of
                                [] \<Rightarrow> None
                              | e # r4 \<Rightarrow>
                                  if e = CHR ''}'' then Some ([(k, v)], r4)
                                  else if e = CHR '','' then
                                    map_option (\<lambda>(ps, r5). ((k, v) # ps, r5))
                                      (parse_members n (skip_ws r4))
                                  else None)))))"

definition decode :: "string \<Rightarrow> json option" where
  "decode s =
     (case parse_value (length s) (skip_ws s) of
        None \<Rightarrow> None
      | Some (v, r) \<Rightarrow> if skip_ws r = [] then Some v else None)"

definition model_json :: json_module where
  "model_json =
     \<lparr>json_dumps = (\<lambda>v. Inr (encode None 0 v)),
      json_dump = (\<lambda>v n. (encode (Some n) 0 v, None)),
      json_loads = (\<lambda>s. case decode s of None \<Rightarrow> Inl ''Expecting value'' | Some v \<Rightarrow> Inr v)\<rparr>"

section \<open>Tool results and content blocks\<close>

text \<open>
  \<open>ToolResult\<close> of the tool collection: every field is optional. A tool that
  fails in its own way, and an unknown tool, are reported through \<open>error\<close>.
\<close>

record tool_result =
  output_str :: "string option"
  error :: "string option"
  base64_image :: "string option"

text \<open>
  Blocks as the stream delivers them: objects with a \<open>type\<close> and attributes. A
  text block may lack its \<open>text\<close> (\<open>hasattr\<close> is tested), and a tool-use
  block its \<open>id\<close>, \<open>name\<close> or \<open>input\<close>: reading a missing attribute
  raises.
\<close>

datatype stream_block =
    TextBlock "string option"
  | ToolUseBlock "string option" "string option" "json option"
  | ThinkingBlock string
  | OtherBlock string

definition quoted :: "string \<Rightarrow> string" where
  "quoted s = CHR 0x27 # s @ [CHR 0x27]"

definition attribute_error :: "string \<Rightarrow> string" where
  "attribute_error name = ''object has no attribute '' @ quoted name"

text \<open>Lines 259 to 264 read \<open>block.id\<close>, \<open>block.name\<close> and \<open>block.input\<close>
  in this order.\<close>

fun tool_use_attributes ::
  "string option \<Rightarrow> string option \<Rightarrow> json option \<Rightarrow> string + string \<times> string \<times> json" where
  "tool_use_attributes None n inp = Inl (attribute_error ''id'')"
| "tool_use_attributes (Some i) None inp = Inl (attribute_error ''name'')"
| "tool_use_attributes (Some i) (Some n) None = Inl (attribute_error ''input'')"
| "tool_use_attributes (Some i) (Some n) (Some inp) = Inr (i, n, inp)"

text \<open>The dictionaries built in \<open>sampling_loop\<close>.\<close>

definition text_param :: "string \<Rightarrow> json" where
  "text_param t = JObj [(''type'', JStr ''text''), (''text'', JStr t)]"

definition tool_use_param :: "string \<Rightarrow> string \<Rightarrow> json \<Rightarrow> json" where
  "tool_use_param i n inp =
     JObj [(''type'', JStr ''tool_use''), (''id'', JStr i), (''name'', JStr n), (''input'', inp)]"

definition image_param :: "string \<Rightarrow> json" where
  "image_param d =
     JObj [(''type'', JStr ''image''),
           (''source'', JObj [(''type'', JStr ''base64''),
                              (''media_type'', JStr ''image/png''),
                              (''data'', JStr d)])]"

text \<open>Lines 274 to 294: the content of a tool result and its error flag.\<close>

definition tool_result_content :: "tool_result \<Rightarrow> json \<times> bool" where
  "tool_result_content result =
     (case nonempty (error result) of
        Some e \<Rightarrow> (JStr e, True)
      | None \<Rightarrow>
          (JArr ((case nonempty (output_str result) of
                    Some out \<Rightarrow> [text_param out] | None \<Rightarrow> [])
               @ (case nonempty (base64_image result) of
                    Some img \<Rightarrow> [image_param img] | None \<Rightarrow> [])),
           False))"

definition tool_result_param :: "tool_result \<Rightarrow> string \<Rightarrow> json" where
  "tool_result_param result tool_id =
     (case tool_result_content result of
        (c, is_error) \<Rightarrow>
          JObj [(''type'', JStr ''tool_result''),
                (''content'', c),
                (''tool_use_id'', JStr tool_id),
                (''is_error'', JBool is_error)])"

section \<open>Requests and the environment\<close>

text \<open>
  A message of the transcript is a dictionary with a \<open>role\<close> and a \<open>content\<close>,
  the content a string or a list of block dictionaries; \<open>self.messages\<close> is a list
  of them.
\<close>

record request =
  req_max_tokens :: nat
  req_messages :: "json list"
  req_model :: string
  req_system :: "json list"
  req_tools :: "json list"
  req_betas :: "string list"
  req_stream :: bool

text \<open>
  A chunk of the stream may have no \<open>delta\<close>, and a delta no \<open>content\<close>.
  The remote call either raises at once, or yields chunks and then ends or raises;
  an exception is the text \<open>str(e)\<close> gives.
\<close>

datatype delta = Delta "stream_block list option"

datatype chunk = Chunk "delta option"

datatype api_outcome =
    CallFailed string
  | Stream "chunk list" "string option"

text \<open>
  What lies outside the program: the remote service and the tools, both acting on a
  world \<open>'w\<close>, and the options of the cache annotator. The tool collection's
  \<open>run\<close> returns a tool result or raises.
\<close>

record 'w env =
  max_cache_breakpoints :: int
  eligible :: "json \<Rightarrow> bool"
  client_create :: "'w \<Rightarrow> request \<Rightarrow> api_outcome \<times> 'w"
  tool_collection_run :: "'w \<Rightarrow> string \<Rightarrow> json \<Rightarrow> (string + tool_result) \<times> 'w"

text \<open>
  The fields of \<open>TerminalInterface\<close> that the methods read, the world, what was
  printed (one entry for each \<open>print\<close>), the files (a file is missing, or cannot
  be opened, or holds a text), and the \<open>json\<close> module that the commands call.
\<close>

datatype file_state = Missing | Unreadable | Contents string

record 'w terminal_interface =
  model :: string
  beta_flag :: "string option"
  tool_params :: "json list"
  system :: "(string \<times> json) list"
  messages :: "json list"
  world :: 'w
  stdout :: "string list"
  files :: "string \<Rightarrow> file_state"
  json_module :: json_module

text \<open>Lines 59 to 73: the transcript starts empty.\<close>

definition new_interface ::
  "string \<Rightarrow> string option \<Rightarrow> json list \<Rightarrow> string \<Rightarrow> 'w \<Rightarrow> json_module
     \<Rightarrow> 'w terminal_interface" where
  "new_interface mdl flag tools system_prompt w jm =
     \<lparr>model = mdl, beta_flag = flag, tool_params = tools,
      system = [(''type'', JStr ''text''), (''text'', JStr system_prompt)],
      messages = [], world = w, stdout = [], files = (\<lambda>name. Missing), json_module = jm\<rparr>"

definition PROMPT_CACHING_BETA_FLAG :: string where
  "PROMPT_CACHING_BETA_FLAG = ''prompt-caching-2024-07-31''"

definition DEFAULT_MODEL :: string where
  "DEFAULT_MODEL = ''claude-3-7-sonnet-20250219''"

definition DEFAULT_MAX_TOKENS :: nat where
  "DEFAULT_MAX_TOKENS = 16384"

definition nl :: string where
  "nl = [CHR 0x0A]"

definition BLUE :: string where
  "BLUE = CHR 0x1B # ''[94m''"

definition GREEN :: string where
  "GREEN = CHR 0x1B # ''[92m''"

definition RED :: string where
  "RED = CHR 0x1B # ''[91m''"

definition YELLOW :: string where
  "YELLOW = CHR 0x1B # ''[93m''"

definition GRAY :: string where
  "GRAY = CHR 0x1B # ''[90m''"

definition ENDC :: string where
  "ENDC = CHR 0x1B # ''[0m''"

definition BOLD :: string where
  "BOLD = CHR 0x1B # ''[1m''"

definition print :: "string list \<Rightarrow> 'w terminal_interface \<Rightarrow> 'w terminal_interface" where
  "print texts st = st\<lparr>stdout := stdout st @ texts\<rparr>"

section \<open>The cache annotator\<close>

text \<open>
  Modelled from the spec: \<open>_inject_prompt_caching\<close> is imported from
  \<open>computer_use_demo.loop\<close> and is not among the sources. The spec's annotator walks
  the transcript from the most recent message, marks the most recent eligible messages
  as cache breakpoints, at most \<open>max_cache_breakpoints\<close> of them, and evicts every
  other mark. The mark is metadata of the message, here its key \<open>cache_control\<close>;
  roles and contents stay as they are. Which messages are eligible the spec leaves open.
\<close>

definition ephemeral :: json where
  "ephemeral = JObj [(''type'', JStr ''ephemeral'')]"

fun mark :: "json \<Rightarrow> json" where
  "mark (JObj d) = JObj (AList.update ''cache_control'' ephemeral d)"
| "mark m = m"

fun unmark :: "json \<Rightarrow> json" where
  "unmark (JObj d) = JObj (AList.delete ''cache_control'' d)"
| "unmark m = m"

fun mark_recent :: "(json \<Rightarrow> bool) \<Rightarrow> int \<Rightarrow> json list \<Rightarrow> json list" where
  "mark_recent elig k [] = []"
| "mark_recent elig k (m # ms) =
     (if elig m \<and> 0 < k
      then mark m # mark_recent elig (k - 1) ms
      else unmark m # mark_recent elig k ms)"

definition inject_prompt_caching :: "'w env \<Rightarrow> json list \<Rightarrow> json list" where
  "inject_prompt_caching env msgs =
     rev (mark_recent (eligible env) (max_cache_breakpoints env) (rev msgs))"

definition is_breakpoint :: "json \<Rightarrow> bool" where
  "is_breakpoint m = (dict_get m ''cache_control'' \<noteq> None)"

definition breakpoints :: "json list \<Rightarrow> nat" where
  "breakpoints msgs = length (filter is_breakpoint msgs)"

section \<open>One pass of the sampling loop\<close>

text \<open>Lines 219 to 236: the request.\<close>

definition system_with_cache :: "'w terminal_interface \<Rightarrow> json" where
  "system_with_cache st = JObj (AList.update ''cache_control'' ephemeral (system st))"

definition make_request :: "'w terminal_interface \<Rightarrow> request" where
  "make_request st =
     \<lparr>req_max_tokens = DEFAULT_MAX_TOKENS,
      req_messages = messages st,
      req_model = model st,
      req_system = [system_with_cache st],
      req_tools = tool_params st,
      req_betas = (case nonempty (beta_flag st) of Some b \<Rightarrow> [b] | None \<Rightarrow> [])
                  @ [PROMPT_CACHING_BETA_FLAG],
      req_stream = True\<rparr>"

text \<open>Lines 241 to 249: the blocks of the stream, and the text printed on the way.\<close>

fun chunk_blocks :: "chunk \<Rightarrow> stream_block list" where
  "chunk_blocks (Chunk (Some (Delta (Some bs)))) = bs"
| "chunk_blocks _ = []"

definition response_content_blocks :: "chunk list \<Rightarrow> stream_block list" where
  "response_content_blocks chunks = concat (map chunk_blocks chunks)"

fun streamed_text :: "stream_block \<Rightarrow> string list" where
  "streamed_text (TextBlock (Some t)) = [t]"
| "streamed_text _ = []"

text \<open>Lines 86 to 97, called through \<open>tool_output_callback\<close>.\<close>

definition print_tool_result :: "tool_result \<Rightarrow> string list" where
  "print_tool_result result =
     (case nonempty (error result) of
        Some e \<Rightarrow> [RED @ ''[Tool Error] '' @ e @ ENDC @ nl]
      | None \<Rightarrow>
          (case nonempty (output_str result) of
             Some out \<Rightarrow> [GRAY @ ''[Tool Output]'' @ ENDC @ nl, out @ nl]
           | None \<Rightarrow> [])
        @ (case nonempty (base64_image result) of
             Some img \<Rightarrow> [GRAY @ ''[Tool Generated Image] (Base64 data not shown)'' @ ENDC @ nl]
           | None \<Rightarrow> []))"

definition tool_result_message :: "tool_result \<Rightarrow> string \<Rightarrow> json" where
  "tool_result_message result tool_id =
     JObj [(''content'', JArr [tool_result_param result tool_id]), (''role'', JStr ''user'')]"

definition assistant_message :: "json list \<Rightarrow> json" where
  "assistant_message response_params =
     JObj [(''role'', JStr ''assistant''), (''content'', JArr response_params)]"

text \<open>
  Lines 252 to 305: the blocks are processed in order. A text block with text goes to
  \<open>response_params\<close>; a tool-use block goes there too, its tool runs, and the tool
  result is appended to the transcript as a user message at once. Any other block
  is passed over. An exception leaves the loop over the blocks with the state as it is
  then.
\<close>

fun process_block ::
  "'w env \<Rightarrow> stream_block \<Rightarrow> json list \<times> 'w terminal_interface
     \<Rightarrow> string option \<times> json list \<times> 'w terminal_interface" where
  "process_block env (TextBlock t) (response_params, st) =
     (case nonempty t of
        Some s \<Rightarrow> (None, response_params @ [text_param s], st)
      | None \<Rightarrow> (None, response_params, st))"
| "process_block env (ToolUseBlock i n inp) (response_params, st) =
     (case tool_use_attributes i n inp of
        Inl e \<Rightarrow> (Some e, response_params, st)
      | Inr (tool_id, name, tool_input) \<Rightarrow>
          (case tool_collection_run env (world st) name tool_input of
             (Inl e, w) \<Rightarrow>
               (Some e, response_params @ [tool_use_param tool_id name tool_input],
                st\<lparr>world := w\<rparr>)
           | (Inr result, w) \<Rightarrow>
               (None, response_params @ [tool_use_param tool_id name tool_input],
                (print (print_tool_result result) (st\<lparr>world := w\<rparr>))
                  \<lparr>messages := messages st @ [tool_result_message result tool_id]\<rparr>)))"
| "process_block env b (response_params, st) = (None, response_params, st)"

fun process_blocks ::
  "'w env \<Rightarrow> stream_block list \<Rightarrow> json list \<times> 'w terminal_interface
     \<Rightarrow> string option \<times> json list \<times> 'w terminal_interface" where
  "process_blocks env [] (response_params, st) = (None, response_params, st)"
| "process_blocks env (b # bs) acc =
     (case process_block env b acc of
        (Some e, response_params, st) \<Rightarrow> (Some e, response_params, st)
      | (None, response_params, st) \<Rightarrow> process_blocks env bs (response_params, st))"

text \<open>Line 314: \<open>isinstance(block, dict) and block.get("type") == "tool_use"\<close>.\<close>

definition is_tool_use :: "json \<Rightarrow> bool" where
  "is_tool_use block = (dict_get block ''type'' = Some (JStr ''tool_use''))"

definition api_error :: "string \<Rightarrow> string" where
  "api_error e = nl @ RED @ ''Error calling Claude API: '' @ e @ ENDC @ nl"

text \<open>
  The body of \<open>while True\<close>: the state it leaves, and whether the loop goes round
  again. Every exception raised inside \<open>try\<close> is printed at lines 317 to 319, and
  the loop returns.
\<close>

definition annotate :: "'w env \<Rightarrow> 'w terminal_interface \<Rightarrow> 'w terminal_interface" where
  "annotate env st = st\<lparr>messages := inject_prompt_caching env (messages st)\<rparr>"

definition turn :: "'w env \<Rightarrow> 'w terminal_interface \<Rightarrow> 'w terminal_interface \<times> bool" where
  "turn env st0 =
     (let st = annotate env st0 in
      case client_create env (world st) (make_request st) of
        (CallFailed e, w) \<Rightarrow> (print [api_error e] (st\<lparr>world := w\<rparr>), False)
      | (Stream chunks ending, w) \<Rightarrow>
          (let blocks = response_content_blocks chunks;
               st1 = print (concat (map streamed_text blocks)) (st\<lparr>world := w\<rparr>)
           in case ending of
                Some e \<Rightarrow> (print [api_error e] st1, False)
              | None \<Rightarrow>
                  (case process_blocks env blocks ([], st1) of
                     (Some e, response_params, st2) \<Rightarrow> (print [api_error e] st2, False)
                   | (None, response_params, st2) \<Rightarrow>
                       (st2\<lparr>messages := messages st2 @ [assistant_message response_params]\<rparr>,
                        list_ex is_tool_use response_params))))"

partial_function (option) sampling_loop ::
  "'w env \<Rightarrow> 'w terminal_interface \<Rightarrow> 'w terminal_interface option" where
  "sampling_loop env st =
     (case turn env st of
        (st', again) \<Rightarrow> if again then sampling_loop env st' else Some st')"

declare sampling_loop.simps [code]

section \<open>Commands\<close>

text \<open>Lines 75 to 84.\<close>

definition print_banner :: "'w terminal_interface \<Rightarrow> 'w terminal_interface" where
  "print_banner st =
     print [nl @ BOLD @ ''===== Claude Terminal Interface ====='' @ ENDC @ nl,
            GRAY @ ''Commands:'' @ ENDC @ nl,
            ''  '' @ YELLOW @ ''/clear'' @ ENDC @ '' - Clear chat history'' @ nl,
            ''  '' @ YELLOW @ ''/exit'' @ ENDC @ '' - Exit the interface'' @ nl,
            ''  '' @ YELLOW @ ''/help'' @ ENDC @ '' - Show this help message'' @ nl,
            ''  '' @ YELLOW @ ''/save <filename>'' @ ENDC @ '' - Save conversation to file'' @ nl,
            ''  '' @ YELLOW @ ''/load <filename>'' @ ENDC @ '' - Load conversation from file'' @ nl,
            BOLD @ ''================================='' @ ENDC @ nl @ nl] st"

text \<open>The texts of the exceptions that the commands can meet.\<close>

definition permission_denied :: "string \<Rightarrow> string" where
  "permission_denied filename = ''[Errno 13] Permission denied: '' @ quoted filename"

definition no_such_file :: "string \<Rightarrow> string" where
  "no_such_file filename = ''[Errno 2] No such file or directory: '' @ quoted filename"

fun type_name :: "json \<Rightarrow> string" where
  "type_name JNull = ''NoneType''"
| "type_name (JBool b) = ''bool''"
| "type_name (JInt i) = ''int''"
| "type_name (JStr s) = ''str''"
| "type_name (JArr xs) = ''list''"
| "type_name (JObj d) = ''dict''"

text \<open>\<open>msg[key]\<close>: a missing key and a value that is no dictionary raise.\<close>

fun subscript :: "json \<Rightarrow> string \<Rightarrow> string + json" where
  "subscript (JObj d) k = (case map_of d k of None \<Rightarrow> Inl (quoted k) | Some v \<Rightarrow> Inr v)"
| "subscript (JArr xs) k = Inl ''list indices must be integers or slices, not str''"
| "subscript (JStr s) k = Inl (''string indices must be integers, not '' @ quoted ''str'')"
| "subscript v k = Inl (quoted (type_name v) @ '' object is not subscriptable'')"

text \<open>\<open>for msg in loaded_messages\<close>: a dictionary yields its keys, a string its
  characters, and a number, a truth value and \<open>None\<close> raise.\<close>

fun iterate :: "json \<Rightarrow> string + json list" where
  "iterate (JArr xs) = Inr xs"
| "iterate (JObj d) = Inr (map (\<lambda>(k, v). JStr k) d)"
| "iterate (JStr s) = Inr (map (\<lambda>c. JStr [c]) s)"
| "iterate v = Inl (quoted (type_name v) @ '' object is not iterable'')"

text \<open>Lines 123 to 126.\<close>

definition serializable_msg :: "json_module \<Rightarrow> json \<Rightarrow> string + json" where
  "serializable_msg jm msg =
     (case subscript msg ''role'' of
        Inl e \<Rightarrow> Inl e
      | Inr r \<Rightarrow>
          (case subscript msg ''content'' of
             Inl e \<Rightarrow> Inl e
           | Inr (JStr s) \<Rightarrow> Inr (JObj [(''role'', r), (''content'', JStr s)])
           | Inr c \<Rightarrow>
               (case json_dumps jm c of
                  Inl e \<Rightarrow> Inl e
                | Inr dumped \<Rightarrow> Inr (JObj [(''role'', r), (''content'', JStr dumped)]))))"

fun serializable_messages :: "json_module \<Rightarrow> json list \<Rightarrow> string + json list" where
  "serializable_messages jm [] = Inr []"
| "serializable_messages jm (msg # msgs) =
     (case serializable_msg jm msg of
        Inl e \<Rightarrow> Inl e
      | Inr d \<Rightarrow>
          (case serializable_messages jm msgs of
             Inl e \<Rightarrow> Inl e
           | Inr ds \<Rightarrow> Inr (d # ds)))"

text \<open>
  Lines 117 to 132. Opening the file for writing empties it; an exception raised while
  the messages are converted leaves it empty, and one raised by \<open>json.dump\<close> leaves
  what was written.
\<close>

definition save_error :: "string \<Rightarrow> string" where
  "save_error e = RED @ ''Error saving conversation: '' @ e @ ENDC @ nl"

definition save :: "string \<Rightarrow> 'w terminal_interface \<Rightarrow> 'w terminal_interface" where
  "save filename st =
     (case files st filename of
        Unreadable \<Rightarrow> print [save_error (permission_denied filename)] st
      | _ \<Rightarrow>
          (case serializable_messages (json_module st) (messages st) of
             Inl e \<Rightarrow>
               print [save_error e] (st\<lparr>files := (files st)(filename := Contents [])\<rparr>)
           | Inr ds \<Rightarrow>
               (case json_dump (json_module st) (JArr ds) 2 of
                  (written, Some e) \<Rightarrow>
                    print [save_error e]
                      (st\<lparr>files := (files st)(filename := Contents written)\<rparr>)
                | (written, None) \<Rightarrow>
                    print [''Conversation saved to '' @ filename @ nl]
                      (st\<lparr>files := (files st)(filename := Contents written)\<rparr>))))"

text \<open>Lines 145 to 150: a string content that starts with a bracket and decodes is
  replaced by the decoded value.\<close>

definition load_msg :: "json_module \<Rightarrow> json \<Rightarrow> string + json" where
  "load_msg jm msg =
     (case subscript msg ''content'' of
        Inl e \<Rightarrow> Inl e
      | Inr c \<Rightarrow>
          (case (msg, c) of
             (JObj d, JStr s) \<Rightarrow>
               if startswith s ''[''
               then (case json_loads jm s of
                       Inr v \<Rightarrow> Inr (JObj (AList.update ''content'' v d))
                     | Inl e \<Rightarrow> Inr msg)
               else Inr msg
           | _ \<Rightarrow> Inr msg))"

fun load_messages :: "json_module \<Rightarrow> json list \<Rightarrow> json list \<Rightarrow> json list \<times> string option" where
  "load_messages jm [] acc = (acc, None)"
| "load_messages jm (msg # msgs) acc =
     (case load_msg jm msg of
        Inl e \<Rightarrow> (acc, Some e)
      | Inr m \<Rightarrow> load_messages jm msgs (acc @ [m]))"

text \<open>
  Lines 138 to 153. The transcript is emptied once the file is decoded; an exception
  after that leaves the messages appended so far.
\<close>

definition load_error :: "string \<Rightarrow> string" where
  "load_error e = RED @ ''Error loading conversation: '' @ e @ ENDC @ nl"

definition load :: "string \<Rightarrow> 'w terminal_interface \<Rightarrow> 'w terminal_interface" where
  "load filename st =
     (case files st filename of
        Missing \<Rightarrow> print [load_error (no_such_file filename)] st
      | Unreadable \<Rightarrow> print [load_error (permission_denied filename)] st
      | Contents body \<Rightarrow>
          (case json_loads (json_module st) body of
             Inl e \<Rightarrow> print [load_error e] st
           | Inr loaded_messages \<Rightarrow>
               (case iterate loaded_messages of
                  Inl e \<Rightarrow> print [load_error e] (st\<lparr>messages := []\<rparr>)
                | Inr msgs \<Rightarrow>
                    (case load_messages (json_module st) msgs [] of
                       (acc, Some e) \<Rightarrow> print [load_error e] (st\<lparr>messages := acc\<rparr>)
                     | (acc, None) \<Rightarrow>
                         print [''Conversation loaded from '' @ filename @ nl]
                           (st\<lparr>messages := acc\<rparr>)))))"

text \<open>
  Lines 99 to 157. The result is the exception that escapes, or the returned flag and
  the state.
\<close>

definition handle_command ::
  "string \<Rightarrow> 'w terminal_interface \<Rightarrow> string + bool \<times> 'w terminal_interface" where
  "handle_command command st =
     (case str_split command of
        [] \<Rightarrow> Inl ''list index out of range''
      | first # args \<Rightarrow>
          (let cmd = lower first in
           if cmd = ''/exit'' then Inr (False, print [''Exiting...'' @ nl] st)
           else if cmd = ''/clear''
           then Inr (True, print [''Chat history cleared.'' @ nl] (st\<lparr>messages := []\<rparr>))
           else if cmd = ''/help'' then Inr (True, print_banner st)
           else if cmd = ''/save'' then
             (case args of
                [] \<Rightarrow>
                  Inr (True,
                       print [RED @ ''Error: Please provide a filename to save to.'' @ ENDC @ nl] st)
              | filename # others \<Rightarrow> Inr (True, save filename st))
           else if cmd = ''/load'' then
             (case args of
                [] \<Rightarrow>
                  Inr (True,
                       print [RED @ ''Error: Please provide a filename to load from.'' @ ENDC @ nl] st)
              | filename # others \<Rightarrow> Inr (True, load filename st))
           else Inr (True, print [RED @ ''Unknown command: '' @ cmd @ ENDC @ nl] st)))"

section \<open>The interaction loop\<close>

text \<open>Lines 198 to 201.\<close>

definition user_message :: "string \<Rightarrow> json" where
  "user_message user_input =
     JObj [(''role'', JStr ''user''), (''content'', JArr [text_param user_input])]"

definition run_error :: "string \<Rightarrow> string" where
  "run_error e = RED @ ''Error: '' @ e @ ENDC @ nl"

definition prompt_user :: "'w terminal_interface \<Rightarrow> 'w terminal_interface" where
  "prompt_user st = print [BLUE @ ''You:'' @ ENDC @ '' ''] st"

definition add_user_input :: "string \<Rightarrow> 'w terminal_interface \<Rightarrow> 'w terminal_interface" where
  "add_user_input user_input st =
     print [nl @ GREEN @ ''Claude:'' @ ENDC @ '' '']
       (st\<lparr>messages := messages st @ [user_message user_input]\<rparr>)"

text \<open>
  Lines 186 to 212, on the lines that standard input still holds. \<open>input()\<close> raises
  at the end of the input, and any exception ends the loop. The result is \<open>None\<close>
  when a sampling loop never returns. An interrupt from the keyboard is left out.
\<close>

fun run_loop ::
  "'w env \<Rightarrow> string list \<Rightarrow> 'w terminal_interface \<Rightarrow> 'w terminal_interface option" where
  "run_loop env [] st = Some (print [run_error ''EOF when reading a line''] (prompt_user st))"
| "run_loop env (line # rest) st =
     (let st1 = prompt_user st;
          user_input = strip line
      in if startswith user_input ''/'' then
           (case handle_command user_input st1 of
              Inl e \<Rightarrow> Some (print [run_error e] st1)
            | Inr (go_on, st2) \<Rightarrow> if go_on then run_loop env rest st2 else Some st2)
         else
           (case sampling_loop env (add_user_input user_input st1) of
              None \<Rightarrow> None
            | Some st3 \<Rightarrow> run_loop env rest (print [nl @ nl] st3)))"

definition run ::
  "'w env \<Rightarrow> string list \<Rightarrow> 'w terminal_interface \<Rightarrow> 'w terminal_interface option" where
  "run env inputs st = run_loop env inputs (print_banner st)"

section \<open>Vocabulary of the properties\<close>

text \<open>What each assembled block contributes to the assistant message.\<close>

fun block_params :: "stream_block \<Rightarrow> json list" where
  "block_params (TextBlock t) = (case nonempty t of Some s \<Rightarrow> [text_param s] | None \<Rightarrow> [])"
| "block_params (ToolUseBlock (Some i) (Some n) (Some inp)) = [tool_use_param i n inp]"
| "block_params b = []"

text \<open>
  The tool-use blocks of an assembled response, by identifier. Then the tools run one
  after the other from a given world until one raises: the results so far, and the
  exception if there is one.
\<close>

fun tool_use_ids :: "stream_block list \<Rightarrow> string option list" where
  "tool_use_ids [] = []"
| "tool_use_ids (ToolUseBlock i n inp # bs) = i # tool_use_ids bs"
| "tool_use_ids (b # bs) = tool_use_ids bs"

fun dispatch_results :: "'w env \<Rightarrow> 'w \<Rightarrow> stream_block list \<Rightarrow> (string \<times> tool_result) list" where
  "dispatch_results env w [] = []"
| "dispatch_results env w (ToolUseBlock i n inp # bs) =
     (case tool_use_attributes i n inp of
        Inl e \<Rightarrow> []
      | Inr (tool_id, name, tool_input) \<Rightarrow>
          (case tool_collection_run env w name tool_input of
             (Inl e, w') \<Rightarrow> []
           | (Inr r, w') \<Rightarrow> (tool_id, r) # dispatch_results env w' bs))"
| "dispatch_results env w (b # bs) = dispatch_results env w bs"

fun dispatch_raised :: "'w env \<Rightarrow> 'w \<Rightarrow> stream_block list \<Rightarrow> string option" where
  "dispatch_raised env w [] = None"
| "dispatch_raised env w (ToolUseBlock i n inp # bs) =
     (case tool_use_attributes i n inp of
        Inl e \<Rightarrow> Some e
      | Inr (tool_id, name, tool_input) \<Rightarrow>
          (case tool_collection_run env w name tool_input of
             (Inl e, w') \<Rightarrow> Some e
           | (Inr r, w') \<Rightarrow> dispatch_raised env w' bs))"
| "dispatch_raised env w (b # bs) = dispatch_raised env w bs"

text \<open>The blocks that the assistant message keeps: text that is not empty, and tool use.\<close>

fun kept :: "stream_block \<Rightarrow> bool" where
  "kept (TextBlock t) = (nonempty t \<noteq> None)"
| "kept (ToolUseBlock i n inp) = True"
| "kept b = False"

text \<open>The remote call or the stream fails; the text of the blocks that arrived.\<close>

fun failure :: "api_outcome \<Rightarrow> string option" where
  "failure (CallFailed e) = Some e"
| "failure (Stream chunks ending) = ending"

fun delivered_text :: "api_outcome \<Rightarrow> string list" where
  "delivered_text (CallFailed e) = []"
| "delivered_text (Stream chunks ending) =
     concat (map streamed_text (response_content_blocks chunks))"

definition has_role :: "string \<Rightarrow> json \<Rightarrow> bool" where
  "has_role r m = (dict_get m ''role'' = Some (JStr r))"

definition role_and_content :: "json \<Rightarrow> json option \<times> json option" where
  "role_and_content m = (dict_get m ''role'', dict_get m ''content'')"

text \<open>Dictionaries have distinct keys.\<close>

fun wf_json :: "json \<Rightarrow> bool" where
  "wf_json (JArr xs) = (\<forall>x \<in> set xs. wf_json x)"
| "wf_json (JObj kvs) = (distinct (map fst kvs) \<and> (\<forall>v \<in> snd ` set kvs. wf_json v))"
| "wf_json v = True"

text \<open>
  A content that a saved file gives back. A string: one that does not both start with a
  bracket and decode. Any other value: one that \<open>json.dumps\<close> writes as a text that
  starts with a bracket, as it does a list, and that \<open>json.loads\<close> reads back from
  that text. A document that \<open>json.load\<close> reads back from what \<open>json.dump\<close> wrote.
\<close>

fun returning_content :: "json_module \<Rightarrow> json \<Rightarrow> bool" where
  "returning_content jm (JStr s) =
     (case json_loads jm s of Inl e \<Rightarrow> True | Inr v \<Rightarrow> \<not> startswith s ''['')"
| "returning_content jm c =
     (case json_dumps jm c of
        Inl e \<Rightarrow> False
      | Inr dumped \<Rightarrow> startswith dumped ''['' \<and> json_loads jm dumped = Inr c)"

definition returning_message :: "json_module \<Rightarrow> json \<Rightarrow> bool" where
  "returning_message jm m =
     (case role_and_content m of
        (Some r, Some c) \<Rightarrow> returning_content jm c
      | _ \<Rightarrow> False)"

definition returning_document :: "json_module \<Rightarrow> json \<Rightarrow> bool" where
  "returning_document jm doc =
     (case json_dump jm doc 2 of
        (written, None) \<Rightarrow> json_loads jm written = Inr doc
      | (written, Some e) \<Rightarrow> False)"

text \<open>
  What may follow a number, and the characters a value can start with.
\<close>

definition follow_ok :: "string \<Rightarrow> bool" where
  "follow_ok rest = (case rest of [] \<Rightarrow> True | c # cs \<Rightarrow> \<not> is_digit c)"

definition value_start :: "char \<Rightarrow> bool" where
  "value_start c = (\<not> is_ws c \<and> c \<noteq> CHR '']'' \<and> c \<noteq> CHR ''}'')"

text \<open>
  A service that refuses every request whose system block is not marked as cacheable or
  whose messages carry more breakpoints than the maximum.
\<close>

definition well_cached :: "'w env \<Rightarrow> request \<Rightarrow> bool" where
  "well_cached env req =
     (map (\<lambda>b. dict_get b ''cache_control'') (req_system req) = [Some ephemeral]
      \<and> int (breakpoints (req_messages req)) \<le> max 0 (max_cache_breakpoints env))"

definition guarded :: "'w env \<Rightarrow> 'w env" where
  "guarded env =
     env\<lparr>client_create :=
           (\<lambda>w req. if well_cached env req then client_create env w req
                     else (CallFailed ''request refused'', w))\<rparr>"

subsection \<open>The turn as the specification words it\<close>

text \<open>
  The specification's blocks, written out: a text block with its text, a tool-use block
  with its identifier, name and input, a thinking block with its text (an attribute that
  is missing is written as \<open>null\<close>, a missing text as the empty text); and a tool
  result with the error text alone and \<open>is_error\<close> set when there is an error, with
  the output text block and the image block otherwise.
\<close>

fun spec_block_param :: "stream_block \<Rightarrow> json" where
  "spec_block_param (TextBlock t) =
     JObj [(''type'', JStr ''text''), (''text'', JStr (case t of Some s \<Rightarrow> s | None \<Rightarrow> []))]"
| "spec_block_param (ToolUseBlock i n inp) =
     JObj [(''type'', JStr ''tool_use''),
           (''id'', (case i of Some s \<Rightarrow> JStr s | None \<Rightarrow> JNull)),
           (''name'', (case n of Some s \<Rightarrow> JStr s | None \<Rightarrow> JNull)),
           (''input'', (case inp of Some v \<Rightarrow> v | None \<Rightarrow> JNull))]"
| "spec_block_param (ThinkingBlock t) = JObj [(''type'', JStr ''thinking''), (''thinking'', JStr t)]"
| "spec_block_param (OtherBlock ty) = JObj [(''type'', JStr ty)]"

definition spec_tool_result_block :: "string \<Rightarrow> tool_result \<Rightarrow> json" where
  "spec_tool_result_block i r =
     (case nonempty (error r) of
        Some e \<Rightarrow>
          JObj [(''type'', JStr ''tool_result''), (''content'', JStr e),
                (''tool_use_id'', JStr i), (''is_error'', JBool True)]
      | None \<Rightarrow>
          JObj [(''type'', JStr ''tool_result''),
                (''content'',
                   JArr ((case nonempty (output_str r) of
                            Some out \<Rightarrow> [JObj [(''type'', JStr ''text''), (''text'', JStr out)]]
                          | None \<Rightarrow> [])
                       @ (case nonempty (base64_image r) of
                            Some img \<Rightarrow>
                              [JObj [(''type'', JStr ''image''),
                                     (''source'', JObj [(''type'', JStr ''base64''),
                                                        (''media_type'', JStr ''image/png''),
                                                        (''data'', JStr img)])]]
                          | None \<Rightarrow> []))),
                (''tool_use_id'', JStr i), (''is_error'', JBool False)])"

text \<open>
  The specification's turn appends the assistant message with all assembled blocks as
  they are, and after it one user message with all tool results.
\<close>

definition spec_assistant_message :: "stream_block list \<Rightarrow> json" where
  "spec_assistant_message blocks =
     JObj [(''role'', JStr ''assistant''), (''content'', JArr (map spec_block_param blocks))]"

definition spec_tool_results_message :: "(string \<times> tool_result) list \<Rightarrow> json" where
  "spec_tool_results_message results =
     JObj [(''content'', JArr (map (\<lambda>(i, r). spec_tool_result_block i r) results)),
           (''role'', JStr ''user'')]"

definition spec_turn_messages ::
  "stream_block list \<Rightarrow> (string \<times> tool_result) list \<Rightarrow> json list" where
  "spec_turn_messages blocks results =
     (if results = [] then [spec_assistant_message blocks]
      else [spec_assistant_message blocks, spec_tool_results_message results])"

text \<open>The user message that the code appends for one tool result, written out.\<close>

definition one_tool_result_message :: "string \<times> tool_result \<Rightarrow> json" where
  "one_tool_result_message ir =
     JObj [(''content'', JArr [spec_tool_result_block (fst ir) (snd ir)]),
           (''role'', JStr ''user'')]"

subsection \<open>A session to run the definitions on\<close>

text \<open>
  The world counts the remote calls. The service answers the calls from a script and
  fails once the script is used up. The only tool is \<open>bash\<close>: it lists two files,
  and raises when its input has no command.
\<close>

definition scripted_create :: "api_outcome list \<Rightarrow> nat \<Rightarrow> request \<Rightarrow> api_outcome \<times> nat" where
  "scripted_create script w req =
     (if w < length script then script ! w else CallFailed ''Connection error.'', Suc w)"

definition ls_result :: tool_result where
  "ls_result = \<lparr>output_str = Some (''a.txt'' @ nl @ ''b.txt''), error = None, base64_image = None\<rparr>"

definition bash_only :: "nat \<Rightarrow> string \<Rightarrow> json \<Rightarrow> (string + tool_result) \<times> nat" where
  "bash_only w name tool_input =
     (if name = ''bash''
      then (case dict_get tool_input ''command'' of
              Some c \<Rightarrow> Inr ls_result
            | None \<Rightarrow> Inl ''no command provided'')
      else Inr \<lparr>output_str = None, error = Some (''Tool '' @ name @ '' is invalid''),
                base64_image = None\<rparr>,
      w)"

definition scripted_env :: "api_outcome list \<Rightarrow> nat env" where
  "scripted_env script =
     \<lparr>max_cache_breakpoints = 2, eligible = has_role ''user'',
      client_create = scripted_create script, tool_collection_run = bash_only\<rparr>"

definition session :: "json list \<Rightarrow> nat terminal_interface" where
  "session msgs =
     (new_interface DEFAULT_MODEL (Some ''computer-use-2025-01-24'') [] ''You are helpful.'' 0
        model_json)
       \<lparr>messages := msgs\<rparr>"

definition ls_block :: "string \<Rightarrow> stream_block" where
  "ls_block i = ToolUseBlock (Some i) (Some ''bash'') (Some (JObj [(''command'', JStr ''ls'')]))"

definition bad_block :: "string \<Rightarrow> stream_block" where
  "bad_block i = ToolUseBlock (Some i) (Some ''bash'') (Some (JObj []))"

definition one_chunk :: "stream_block list \<Rightarrow> chunk list" where
  "one_chunk blocks = [Chunk (Some (Delta (Some blocks)))]"

section \<open>Decoding what was encoded\<close>

subsection \<open>Strings and numbers\<close>

lemma hex_val_hex_char: "d < 16 \<Longrightarrow> hex_val (hex_char d) = Some d"
  by (auto simp: hex_val_def hex_char_def Let_def)

lemma hex4_byte:
  "n < 256 \<Longrightarrow> hex4 (CHR ''0'') (CHR ''0'') (hex_char (n div 16)) (hex_char (n mod 16)) = Some n"
proof -
  assume n: "n < 256"
  then have d: "n div 16 < 16" by simp
  have z: "hex_val (CHR ''0'') = Some 0" by (simp add: hex_val_def)
  show ?thesis
    using n by (simp add: hex4_def z hex_val_hex_char [OF d] hex_val_hex_char)
qed

lemma scanstring_escape: "scanstring (escape_char c @ s) = cons_char c (scanstring s)"
proof -
  have u: "hex4 (CHR ''0'') (CHR ''0'') (hex_char (of_char c div 16)) (hex_char (of_char c mod 16))
             = Some (of_char c)"
    by (rule hex4_byte) simp
  show ?thesis
    by (auto simp: escape_char_def unescape_def u cons_char_def)
qed

lemma scanstring_encoded:
  "scanstring (concat (map escape_char s) @ CHR 0x22 # rest) = Some (s, rest)"
  by (induction s) (simp_all add: scanstring_escape cons_char_def)


lemma of_char_digit_char: "d < 10 \<Longrightarrow> (of_char (digit_char d) :: nat) = 48 + d"
  by (simp add: digit_char_def)

lemma digit_char_props:
  "d < 10 \<Longrightarrow> is_digit (digit_char d)"
  "d < 10 \<Longrightarrow> digit_val (digit_char d) = d"
  "d < 10 \<Longrightarrow> digit_char d = CHR ''0'' \<longleftrightarrow> d = 0"
proof -
  assume d: "d < 10"
  show "is_digit (digit_char d)"
    using d by (simp add: is_digit_def of_char_digit_char)
  show "digit_val (digit_char d) = d"
    using d by (simp add: digit_val_def of_char_digit_char)
  have "digit_char d = CHR ''0'' \<longleftrightarrow> (of_char (digit_char d) :: nat) = of_char (CHR ''0'')"
    by (simp only: of_char_eq_iff)
  then show "digit_char d = CHR ''0'' \<longleftrightarrow> d = 0"
    using d by (simp add: of_char_digit_char)
qed

lemma show_nat_nonempty: "show_nat n \<noteq> []"
  by (subst show_nat.simps) simp

lemma show_nat_digits: "c \<in> set (show_nat n) \<Longrightarrow> is_digit c"
proof (induction n rule: show_nat.induct)
  case (1 n)
  then show ?case
    by (subst (asm) show_nat.simps) (auto simp: digit_char_props split: if_splits)
qed

lemma read_nat_snoc: "read_nat (ds @ [c]) = 10 * read_nat ds + digit_val c"
  by (simp add: read_nat_def)

lemma read_nat_show_nat: "read_nat (show_nat n) = n"
proof (induction n rule: show_nat.induct)
  case (1 n)
  show ?case
  proof (cases "n < 10")
    case True
    then show ?thesis
      by (subst show_nat.simps) (simp add: read_nat_def digit_char_props)
  next
    case False
    then show ?thesis
      using 1 by (subst show_nat.simps) (simp add: read_nat_snoc digit_char_props)
  qed
qed

lemma show_nat_head: "0 < n \<Longrightarrow> hd (show_nat n) \<noteq> CHR ''0''"
proof (induction n rule: show_nat.induct)
  case (1 n)
  show ?case
  proof (cases "n < 10")
    case True
    then show ?thesis
      using 1 by (subst show_nat.simps) (simp add: digit_char_props)
  next
    case False
    then have "0 < n div 10" by simp
    then show ?thesis
      using 1 False by (subst show_nat.simps) (simp add: show_nat_nonempty)
  qed
qed

lemma digits_then_rest:
  assumes "follow_ok rest"
  shows "takeWhile is_digit (show_nat n @ rest) = show_nat n"
    and "dropWhile is_digit (show_nat n @ rest) = rest"
proof -
  have t: "takeWhile is_digit rest = []" and d: "dropWhile is_digit rest = rest"
    using assms by (cases rest; simp add: follow_ok_def)+
  show "takeWhile is_digit (show_nat n @ rest) = show_nat n"
    by (simp add: show_nat_digits t)
  show "dropWhile is_digit (show_nat n @ rest) = rest"
    by (simp add: show_nat_digits d)
qed

lemma scan_nat_show_nat:
  assumes "follow_ok rest"
  shows "scan_nat (show_nat n @ rest) = Some (n, rest)"
proof (cases "n = 0")
  case True
  have "show_nat 0 = [CHR ''0'']"
    using digit_char_props(3) [of 0] by (subst show_nat.simps) simp
  then show ?thesis
    using True by (simp add: scan_nat_def)
next
  case False
  obtain c cs where s: "show_nat n = c # cs"
    using show_nat_nonempty [of n] by (cases "show_nat n") auto
  have c: "c \<noteq> CHR ''0''" "is_digit c"
    using show_nat_head [of n] show_nat_digits [of c n] False by (simp_all add: s)
  have "scan_nat (show_nat n @ rest) =
          Some (read_nat (takeWhile is_digit (show_nat n @ rest)),
                dropWhile is_digit (show_nat n @ rest))"
    using c by (simp add: scan_nat_def s)
  then show ?thesis
    by (simp add: digits_then_rest [OF assms] read_nat_show_nat)
qed

lemma show_int_head: "\<exists>c cs. show_int i = c # cs \<and> (c = CHR ''-'' \<or> is_digit c)"
proof -
  obtain c cs where s: "show_nat (nat \<bar>i\<bar>) = c # cs"
    using show_nat_nonempty [of "nat \<bar>i\<bar>"] by (cases "show_nat (nat \<bar>i\<bar>)") auto
  have "is_digit c"
    using show_nat_digits [of c "nat \<bar>i\<bar>"] by (simp add: s)
  then show ?thesis
    using s by (cases "i < 0") (auto simp: show_int_def)
qed

lemma scan_int_show_int:
  assumes "follow_ok rest"
  shows "scan_int (show_int i @ rest) = Some (i, rest)"
proof (cases "i < 0")
  case True
  then show ?thesis
    by (simp add: scan_int_def show_int_def scan_nat_show_nat [OF assms])
next
  case False
  obtain c cs where s: "show_nat (nat i) = c # cs"
    using show_nat_nonempty [of "nat i"] by (cases "show_nat (nat i)") auto
  have "is_digit c"
    using show_nat_digits [of c "nat i"] by (simp add: s)
  then have m: "c \<noteq> CHR ''-''"
    by (auto simp: is_digit_def)
  have "scan_int (show_nat (nat i) @ rest) =
          map_option (\<lambda>(n, r'). (int n, r')) (scan_nat (show_nat (nat i) @ rest))"
    using m by (simp add: scan_int_def s)
  then show ?thesis
    using False by (simp add: show_int_def scan_nat_show_nat [OF assms])
qed

subsection \<open>White space and first characters\<close>

lemma skip_ws_ws: "(\<And>c. c \<in> set w \<Longrightarrow> is_ws c) \<Longrightarrow> skip_ws (w @ s) = skip_ws s"
  by (simp add: skip_ws_def)

lemma skip_ws_start: "\<not> is_ws c \<Longrightarrow> skip_ws (c # cs) = c # cs"
  by (simp add: skip_ws_def)

lemma newline_indent_ws: "c \<in> set (newline_indent indent level) \<Longrightarrow> is_ws c"
  by (cases indent) (auto simp: newline_indent_def is_ws_def)

lemma item_separator_shape:
  "\<exists>w. item_separator indent level = CHR '','' # w \<and> (\<forall>c \<in> set w. is_ws c)"
proof (cases indent)
  case None
  then show ?thesis
    by (simp add: item_separator_def is_ws_def)
next
  case (Some k)
  have "item_separator indent level = CHR '','' # newline_indent indent level"
    using Some by (simp add: item_separator_def)
  then show ?thesis
    using newline_indent_ws by blast
qed

lemma skip_ws_indent: "skip_ws (newline_indent indent level @ s) = skip_ws s"
  by (rule skip_ws_ws) (rule newline_indent_ws)

lemma encode_string_head: "encode_string k = CHR 0x22 # concat (map escape_char k) @ [CHR 0x22]"
  by (simp add: encode_string_def)

lemma encode_head: "\<exists>c cs. encode indent level v = c # cs \<and> value_start c"
proof (cases v)
  case (JInt i)
  obtain c cs where "show_int i = c # cs" "c = CHR ''-'' \<or> is_digit c"
    using show_int_head by blast
  then show ?thesis
    using JInt by (auto simp: value_start_def is_ws_def is_digit_def)
qed (auto simp: value_start_def is_ws_def encode_string_def)

lemma encode_items_head:
  "xs \<noteq> [] \<Longrightarrow> \<exists>c cs. encode_items indent level xs = c # cs \<and> value_start c"
proof (cases xs)
  case (Cons x ys)
  obtain c cs where "encode indent level x = c # cs" "value_start c"
    using encode_head by blast
  then show ?thesis
    using Cons by simp
qed simp

lemma encode_members_head:
  "kvs \<noteq> [] \<Longrightarrow> \<exists>cs. encode_members indent level kvs = CHR 0x22 # cs"
  by (cases kvs) (auto simp: encode_string_def)

lemma follow_ok_cons: "\<not> is_digit c \<Longrightarrow> follow_ok (c # cs)"
  by (simp add: follow_ok_def)

lemma follow_ok_closing:
  "follow_ok (newline_indent indent level @ CHR '']'' # rest)"
  "follow_ok (newline_indent indent level @ CHR ''}'' # rest)"
  by (cases indent; simp add: newline_indent_def follow_ok_def is_digit_def)+

lemma follow_ok_separator: "follow_ok (item_separator indent level @ s)"
  by (cases indent) (simp_all add: item_separator_def follow_ok_def is_digit_def)

subsection \<open>The branches of the decoder\<close>

lemma parse_value_string:
  "parse_value (Suc n) (CHR 0x22 # r) = map_option (\<lambda>(t, r'). (JStr t, r')) (scanstring r)"
  by simp

lemma parse_value_null: "parse_value (Suc n) (''null'' @ r) = Some (JNull, r)"
  by simp

lemma parse_value_true: "parse_value (Suc n) (''true'' @ r) = Some (JBool True, r)"
  by simp

lemma parse_value_false: "parse_value (Suc n) (''false'' @ r) = Some (JBool False, r)"
  by simp

lemma number_start:
  assumes "c = CHR ''-'' \<or> is_digit c"
  shows "c \<noteq> CHR 0x22" "c \<noteq> CHR ''{''" "c \<noteq> CHR ''[''"
    "c \<noteq> CHR ''n''" "c \<noteq> CHR ''t''" "c \<noteq> CHR ''f''"
  using assms by (auto simp: is_digit_def)

lemma parse_value_int:
  assumes "c = CHR ''-'' \<or> is_digit c"
  shows "parse_value (Suc n) (c # cs) = map_option (\<lambda>(i, r'). (JInt i, r')) (scan_int (c # cs))"
  by (simp add: number_start [OF assms])

lemma parse_value_array_empty:
  "skip_ws r = CHR '']'' # r' \<Longrightarrow> parse_value (Suc n) (CHR ''['' # r) = Some (JArr [], r')"
  by simp

lemma parse_value_array:
  "skip_ws r = d # r' \<Longrightarrow> d \<noteq> CHR '']'' \<Longrightarrow>
   parse_value (Suc n) (CHR ''['' # r) =
     map_option (\<lambda>(vs, r''). (JArr vs, r'')) (parse_items n (d # r'))"
  by simp

lemma parse_value_object_empty:
  "skip_ws r = CHR ''}'' # r' \<Longrightarrow> parse_value (Suc n) (CHR ''{'' # r) = Some (JObj [], r')"
  by simp

lemma parse_value_object:
  "skip_ws r = d # r' \<Longrightarrow> d \<noteq> CHR ''}'' \<Longrightarrow>
   parse_value (Suc n) (CHR ''{'' # r) =
     map_option (\<lambda>(ps, r''). (JObj (dict_of_pairs ps), r'')) (parse_members n (d # r'))"
  by simp

lemma parse_items_last:
  "parse_value n s = Some (v, r) \<Longrightarrow> skip_ws r = CHR '']'' # r' \<Longrightarrow>
   parse_items (Suc n) s = Some ([v], r')"
  by simp

lemma parse_items_more:
  "parse_value n s = Some (v, r) \<Longrightarrow> skip_ws r = CHR '','' # r' \<Longrightarrow>
   parse_items (Suc n) s = map_option (\<lambda>(vs, r''). (v # vs, r'')) (parse_items n (skip_ws r'))"
  by simp

lemma parse_members_last:
  "scanstring r = Some (k, r1) \<Longrightarrow> skip_ws r1 = CHR '':'' # r2 \<Longrightarrow>
   parse_value n (skip_ws r2) = Some (v, r3) \<Longrightarrow> skip_ws r3 = CHR ''}'' # r4 \<Longrightarrow>
   parse_members (Suc n) (CHR 0x22 # r) = Some ([(k, v)], r4)"
  by simp

lemma parse_members_more:
  "scanstring r = Some (k, r1) \<Longrightarrow> skip_ws r1 = CHR '':'' # r2 \<Longrightarrow>
   parse_value n (skip_ws r2) = Some (v, r3) \<Longrightarrow> skip_ws r3 = CHR '','' # r4 \<Longrightarrow>
   parse_members (Suc n) (CHR 0x22 # r) =
     map_option (\<lambda>(ps, r5). ((k, v) # ps, r5)) (parse_members n (skip_ws r4))"
  by simp

subsection \<open>Values\<close>

declare parse_value.simps [simp del] parse_items.simps [simp del] parse_members.simps [simp del]

lemma dict_of_pairs_distinct: "distinct (map fst ps) \<Longrightarrow> dict_of_pairs ps = ps"
proof -
  have "distinct (map fst (d @ ps)) \<Longrightarrow>
        foldl (\<lambda>d (k, v). AList.update k v d) d ps = d @ ps" for d
  proof (induction ps arbitrary: d)
    case Nil
    show ?case by simp
  next
    case (Cons p ps)
    obtain k v where p: "p = (k, v)" by (cases p)
    have "k \<notin> fst ` set d"
      using Cons.prems by (auto simp: p)
    then have u: "AList.update k v d = d @ [(k, v)]"
      by (induction d) auto
    show ?case
      using Cons.IH [of "d @ [(k, v)]"] Cons.prems by (simp add: p u)
  qed
  from this [of "[]"] show "distinct (map fst ps) \<Longrightarrow> dict_of_pairs ps = ps"
    by (simp add: dict_of_pairs_def)
qed

lemma encode_nonempty: "0 < length (encode indent level v)"
  using encode_head [of indent level v] by auto

lemma parse_encoded:
  "wf_json v \<Longrightarrow> length (encode indent level v) \<le> n \<Longrightarrow> follow_ok rest \<Longrightarrow>
     parse_value n (encode indent level v @ rest) = Some (v, rest)"
  "(\<forall>x \<in> set xs. wf_json x) \<Longrightarrow> xs \<noteq> [] \<Longrightarrow> length (encode_items indent level xs) < n \<Longrightarrow>
     parse_items n (encode_items indent level xs @ newline_indent indent level' @ CHR '']'' # rest)
       = Some (xs, rest)"
  "(\<forall>v \<in> snd ` set kvs. wf_json v) \<Longrightarrow> kvs \<noteq> [] \<Longrightarrow>
     length (encode_members indent level kvs) < n \<Longrightarrow>
     parse_members n
       (encode_members indent level kvs @ newline_indent indent level' @ CHR ''}'' # rest)
       = Some (kvs, rest)"
proof (induction indent level v and indent level xs and indent level kvs
       arbitrary: n rest and n rest level' and n rest level'
       rule: encode_encode_items_encode_members.induct)
  case (1 indent level)
  then obtain m where "n = Suc m" by (cases n) auto
  then show ?case
    using parse_value_null [of m rest] by simp
next
  case (2 indent level b)
  then obtain m where "n = Suc m" by (cases n) (auto split: if_splits)
  then show ?case
    using parse_value_true [of m rest] parse_value_false [of m rest] by simp
next
  case (3 indent level i)
  obtain c cs where s: "show_int i = c # cs" "c = CHR ''-'' \<or> is_digit c"
    using show_int_head by blast
  with 3 obtain m where "n = Suc m" by (cases n) auto
  then show ?case
    using parse_value_int [OF s(2), of m "cs @ rest"] scan_int_show_int [OF "3.prems"(3), of i]
    by (simp add: s(1))
next
  case (4 indent level s)
  then obtain m where "n = Suc m" by (cases n) (auto simp: encode_string_def)
  then show ?case
    using parse_value_string [of m "concat (map escape_char s) @ CHR 0x22 # rest"]
    by (simp add: encode_string_def scanstring_encoded)
next
  case (5 indent level xs)
  show ?case
  proof (cases "xs = []")
    case True
    from 5 True obtain m where n: "n = Suc m" by (cases n) auto
    have "skip_ws (CHR '']'' # rest) = CHR '']'' # rest"
      by (rule skip_ws_start) (simp add: is_ws_def)
    then show ?thesis
      using parse_value_array_empty [of "CHR '']'' # rest" rest m] True n by simp
  next
    case False
    obtain d r' where items: "encode_items indent (Suc level) xs = d # r'" and d: "value_start d"
      using encode_items_head [OF False] by blast
    from "5.prems"(2) False obtain m where n: "n = Suc m" by (cases n) auto
    have len: "length (encode_items indent (Suc level) xs) < m"
      using "5.prems"(2) False n by simp
    have wf: "\<forall>x \<in> set xs. wf_json x"
      using "5.prems"(1) by simp
    let ?tail = "r' @ newline_indent indent level @ CHR '']'' # rest"
    have skip: "skip_ws (newline_indent indent (Suc level) @ d # ?tail) = d # ?tail"
      using d by (simp add: skip_ws_indent skip_ws_start value_start_def)
    have "parse_items m (d # ?tail) = Some (xs, rest)"
      using "5.IH" [OF False wf False len, of level rest] by (simp add: items)
    then have "parse_value (Suc m) (CHR ''['' # newline_indent indent (Suc level) @ d # ?tail)
                 = Some (JArr xs, rest)"
      using parse_value_array [OF skip, of m] d by (simp add: value_start_def)
    then show ?thesis
      using False by (simp add: n items)
  qed
next
  case (6 indent level kvs)
  show ?case
  proof (cases "kvs = []")
    case True
    from 6 True obtain m where n: "n = Suc m" by (cases n) auto
    have "skip_ws (CHR ''}'' # rest) = CHR ''}'' # rest"
      by (rule skip_ws_start) (simp add: is_ws_def)
    then show ?thesis
      using parse_value_object_empty [of "CHR ''}'' # rest" rest m] True n by simp
  next
    case False
    obtain r' where members: "encode_members indent (Suc level) kvs = CHR 0x22 # r'"
      using encode_members_head [OF False] by blast
    from "6.prems"(2) False obtain m where n: "n = Suc m" by (cases n) auto
    have len: "length (encode_members indent (Suc level) kvs) < m"
      using "6.prems"(2) False n by simp
    have wf: "\<forall>v \<in> snd ` set kvs. wf_json v" and dist: "distinct (map fst kvs)"
      using "6.prems"(1) by simp_all
    let ?tail = "r' @ newline_indent indent level @ CHR ''}'' # rest"
    have skip: "skip_ws (newline_indent indent (Suc level) @ CHR 0x22 # ?tail) = CHR 0x22 # ?tail"
      by (simp add: skip_ws_indent skip_ws_start is_ws_def)
    have "parse_members m (CHR 0x22 # ?tail) = Some (kvs, rest)"
      using "6.IH" [OF False wf False len, of level rest] by (simp add: members)
    then have "parse_value (Suc m) (CHR ''{'' # newline_indent indent (Suc level) @ CHR 0x22 # ?tail)
                 = Some (JObj kvs, rest)"
      using parse_value_object [OF skip, of m] by (simp add: dict_of_pairs_distinct [OF dist])
    then show ?thesis
      using False by (simp add: n members)
  qed
next
  case (7 indent level)
  then show ?case by simp
next
  case (8 indent level x xs)
  from "8.prems"(3) obtain m where n: "n = Suc m" by (cases n) auto
  have wfx: "wf_json x" and wfxs: "\<forall>y \<in> set xs. wf_json y"
    using "8.prems"(1) by simp_all
  let ?close = "newline_indent indent level' @ CHR '']'' # rest"
  show ?case
  proof (cases "xs = []")
    case True
    have lx: "length (encode indent level x) \<le> m"
      using "8.prems"(3) True n by simp
    have v: "parse_value m (encode indent level x @ ?close) = Some (x, ?close)"
      using "8.IH"(1) [OF wfx lx follow_ok_closing(1)] .
    have "skip_ws ?close = CHR '']'' # rest"
      by (simp add: skip_ws_indent skip_ws_start is_ws_def)
    then show ?thesis
      using parse_items_last [OF v] True n by simp
  next
    case False
    obtain w where sep: "item_separator indent level = CHR '','' # w" and w: "\<forall>c \<in> set w. is_ws c"
      using item_separator_shape by blast
    obtain d r' where items: "encode_items indent level xs = d # r'" and d: "value_start d"
      using encode_items_head [OF False] by blast
    let ?more = "item_separator indent level @ encode_items indent level xs @ ?close"
    have lx: "length (encode indent level x) \<le> m"
      using "8.prems"(3) False n by simp
    have lxs: "length (encode_items indent level xs) < m"
      using "8.prems"(3) False n encode_nonempty [of indent level x] by (simp add: sep)
    have v: "parse_value m (encode indent level x @ ?more) = Some (x, ?more)"
      using "8.IH"(1) [OF wfx lx follow_ok_separator] .
    have s1: "skip_ws ?more = CHR '','' # w @ encode_items indent level xs @ ?close"
      by (simp add: sep skip_ws_start is_ws_def)
    have s2: "skip_ws (w @ encode_items indent level xs @ ?close)
                = encode_items indent level xs @ ?close"
      using w d by (simp add: skip_ws_ws items skip_ws_start value_start_def)
    have "parse_items m (encode_items indent level xs @ ?close) = Some (xs, rest)"
      using "8.IH"(2) [OF False wfxs False lxs] .
    then show ?thesis
      using parse_items_more [OF v s1] False n by (simp add: s2)
  qed
next
  case (9 indent level)
  then show ?case by simp
next
  case (10 indent level k v kvs)
  from "10.prems"(3) obtain m where n: "n = Suc m" by (cases n) auto
  have wfv: "wf_json v" and wfkvs: "\<forall>u \<in> snd ` set kvs. wf_json u"
    using "10.prems"(1) by simp_all
  let ?close = "newline_indent indent level' @ CHR ''}'' # rest"
  let ?key = "concat (map escape_char k) @ [CHR 0x22]"
  obtain c cs where ev: "encode indent level v = c # cs" and c: "value_start c"
    using encode_head by blast
  have colon: "\<And>t. skip_ws ('': '' @ t) = CHR '':'' # CHR '' '' # t"
    by (simp add: skip_ws_start is_ws_def)
  have space: "\<And>t. skip_ws (CHR '' '' # encode indent level v @ t) = encode indent level v @ t"
    using c skip_ws_ws [of "'' ''"] by (simp add: ev skip_ws_start value_start_def is_ws_def)
  show ?case
  proof (cases "kvs = []")
    case True
    have lv: "length (encode indent level v) \<le> m"
      using "10.prems"(3) True n by simp
    have key: "scanstring (concat (map escape_char k) @ CHR 0x22 # '': '' @ encode indent level v @ ?close)
                 = Some (k, '': '' @ encode indent level v @ ?close)"
      by (rule scanstring_encoded)
    have val: "parse_value m (skip_ws (CHR '' '' # encode indent level v @ ?close)) = Some (v, ?close)"
      using "10.IH"(1) [OF wfv lv follow_ok_closing(2)] by (simp only: space)
    have "skip_ws ?close = CHR ''}'' # rest"
      by (simp add: skip_ws_indent skip_ws_start is_ws_def)
    then show ?thesis
      using parse_members_last [OF key colon val] True n by (simp add: encode_string_def)
  next
    case False
    obtain w where sep: "item_separator indent level = CHR '','' # w" and w: "\<forall>c \<in> set w. is_ws c"
      using item_separator_shape by blast
    obtain r' where members: "encode_members indent level kvs = CHR 0x22 # r'"
      using encode_members_head [OF False] by blast
    let ?more = "item_separator indent level @ encode_members indent level kvs @ ?close"
    have lv: "length (encode indent level v) \<le> m"
      using "10.prems"(3) False n by simp
    have lkvs: "length (encode_members indent level kvs) < m"
      using "10.prems"(3) False n by (simp add: sep encode_string_def)
    have key: "scanstring (concat (map escape_char k) @ CHR 0x22 # '': '' @ encode indent level v @ ?more)
                 = Some (k, '': '' @ encode indent level v @ ?more)"
      by (rule scanstring_encoded)
    have val: "parse_value m (skip_ws (CHR '' '' # encode indent level v @ ?more)) = Some (v, ?more)"
      using "10.IH"(1) [OF wfv lv follow_ok_separator] by (simp only: space)
    have s1: "skip_ws ?more = CHR '','' # w @ encode_members indent level kvs @ ?close"
      by (simp add: sep skip_ws_start is_ws_def)
    have s2: "skip_ws (w @ encode_members indent level kvs @ ?close)
                = encode_members indent level kvs @ ?close"
      using w by (simp add: skip_ws_ws members skip_ws_start is_ws_def)
    have "parse_members m (encode_members indent level kvs @ ?close) = Some (kvs, rest)"
      using "10.IH"(2) [OF False wfkvs False lkvs] .
    then show ?thesis
      using parse_members_more [OF key colon val s1] False n by (simp add: s2 encode_string_def)
  qed
qed

section \<open>The cache annotator keeps roles and contents\<close>

lemma role_and_content_mark: "role_and_content (mark m) = role_and_content m"
  by (cases m) (simp_all add: role_and_content_def update_conv')

lemma role_and_content_unmark: "role_and_content (unmark m) = role_and_content m"
  by (cases m) (simp_all add: role_and_content_def delete_conv')

lemma mark_recent_length: "length (mark_recent e k ms) = length ms"
  by (induction ms arbitrary: k) simp_all

lemma mark_recent_role_and_content:
  "map role_and_content (mark_recent e k ms) = map role_and_content ms"
  by (induction ms arbitrary: k) (simp_all add: role_and_content_mark role_and_content_unmark)

lemma unmark_no_breakpoint: "\<not> is_breakpoint (unmark m)"
  by (cases m) (simp_all add: is_breakpoint_def delete_conv')

lemma mark_recent_bound: "int (breakpoints (mark_recent e k ms)) \<le> max 0 k"
proof (induction ms arbitrary: k)
  case Nil
  show ?case by (simp add: breakpoints_def)
next
  case (Cons m ms)
  show ?case
    using Cons.IH [of k] Cons.IH [of "k - 1"]
    by (auto simp: breakpoints_def unmark_no_breakpoint)
qed

lemma breakpoints_rev: "breakpoints (rev ms) = breakpoints ms"
  by (simp add: breakpoints_def flip: rev_filter)

lemma inject_bound:
  "int (breakpoints (inject_prompt_caching env ms)) \<le> max 0 (max_cache_breakpoints env)"
  by (simp add: inject_prompt_caching_def breakpoints_rev mark_recent_bound)

lemma inject_length: "length (inject_prompt_caching env ms) = length ms"
  by (simp add: inject_prompt_caching_def mark_recent_length)

lemma inject_role_and_content:
  "map role_and_content (inject_prompt_caching env ms) = map role_and_content ms"
  by (simp add: inject_prompt_caching_def mark_recent_role_and_content flip: rev_map)

section \<open>The blocks of a response\<close>

text \<open>
  The block loop (lines 253 to 305) stops at the first exception. Until then every
  tool-use block has appended its tool-result message to the transcript; the parameters
  kept for the assistant message are those of the blocks passed.
\<close>

lemma tool_use_attributes_Inr:
  "tool_use_attributes i n inp = Inr (a, b, c) \<longleftrightarrow> i = Some a \<and> n = Some b \<and> inp = Some c"
  by (cases i; cases n; cases inp) auto

lemma process_blocks_raised:
  "fst (process_blocks env bs (ps, st)) = dispatch_raised env (world st) bs"
proof (induction bs arbitrary: ps st)
  case Nil
  show ?case by simp
next
  case (Cons b bs)
  show ?case
    by (cases b) (auto simp: Cons.IH print_def split: option.splits prod.splits sum.splits)
qed

lemma process_blocks_messages:
  "messages (snd (snd (process_blocks env bs (ps, st)))) =
     messages st @ map (\<lambda>(i, r). tool_result_message r i) (dispatch_results env (world st) bs)"
proof (induction bs arbitrary: ps st)
  case Nil
  show ?case by simp
next
  case (Cons b bs)
  show ?case
    by (cases b) (auto simp: Cons.IH print_def split: option.splits prod.splits sum.splits)
qed

lemma process_blocks_params:
  "dispatch_raised env (world st) bs = None \<Longrightarrow>
   fst (snd (process_blocks env bs (ps, st))) = ps @ concat (map block_params bs)"
proof (induction bs arbitrary: ps st)
  case Nil
  show ?case by simp
next
  case (Cons b bs)
  then show ?case
    by (cases b)
       (auto simp: tool_use_attributes_Inr print_def split: option.splits prod.splits sum.splits)
qed

lemma dispatch_results_ids:
  "dispatch_raised env w bs = None \<Longrightarrow>
   map (\<lambda>ir. Some (fst ir)) (dispatch_results env w bs) = tool_use_ids bs"
  by (induction env w bs rule: dispatch_results.induct)
     (auto simp: tool_use_attributes_Inr split: prod.splits sum.splits)

lemma is_tool_use_params:
  "dispatch_raised env w bs = None \<Longrightarrow>
   list_ex is_tool_use (concat (map block_params bs)) \<longleftrightarrow> tool_use_ids bs \<noteq> []"
  by (induction env w bs rule: dispatch_raised.induct)
     (auto simp: tool_use_attributes_Inr is_tool_use_def tool_use_param_def text_param_def
           split: prod.splits sum.splits option.splits)

lemma kept_params:
  "dispatch_raised env w bs = None \<Longrightarrow>
   concat (map block_params bs) = map spec_block_param (filter kept bs)"
proof (induction bs arbitrary: w)
  case Nil
  show ?case by simp
next
  case (Cons b bs)
  show ?case
  proof (cases b)
    case (TextBlock t)
    then show ?thesis
      using Cons by (cases t) (simp_all add: text_param_def)
  next
    case (ToolUseBlock i n inp)
    then show ?thesis
      using Cons
      by (auto simp: tool_use_attributes_Inr tool_use_param_def split: prod.splits sum.splits)
  next
    case (ThinkingBlock t)
    then show ?thesis
      using Cons by simp
  next
    case (OtherBlock ty)
    then show ?thesis
      using Cons by simp
  qed
qed

lemma tool_result_message_written_out: "tool_result_message r i = one_tool_result_message (i, r)"
  by (simp add: tool_result_message_def one_tool_result_message_def tool_result_param_def
        tool_result_content_def spec_tool_result_block_def text_param_def image_param_def
      split: option.splits)

lemma tool_result_messages_written_out:
  "map (\<lambda>(i, r). tool_result_message r i) xs = map one_tool_result_message xs"
  by (induction xs) (simp_all add: tool_result_message_written_out split: prod.splits)

section \<open>One pass\<close>

text \<open>
  What a pass leaves behind when the stream was drained, and when the call or the stream
  failed.
\<close>

lemma turn_drained:
  assumes "client_create env (world st) (make_request (annotate env st)) = (Stream chunks None, w)"
  shows "messages (fst (turn env st)) =
           inject_prompt_caching env (messages st)
           @ map one_tool_result_message
               (dispatch_results env w (response_content_blocks chunks))
           @ (case dispatch_raised env w (response_content_blocks chunks) of
                None \<Rightarrow>
                  [assistant_message (concat (map block_params (response_content_blocks chunks)))]
              | Some e \<Rightarrow> [])"
    and "snd (turn env st) \<longleftrightarrow>
           dispatch_raised env w (response_content_blocks chunks) = None
           \<and> tool_use_ids (response_content_blocks chunks) \<noteq> []"
    and "dispatch_raised env w (response_content_blocks chunks) = Some e \<Longrightarrow>
           last (stdout (fst (turn env st))) = api_error e"
proof -
  let ?bs = "response_content_blocks chunks"
  let ?st1 = "print (concat (map streamed_text ?bs)) ((annotate env st)\<lparr>world := w\<rparr>)"
  have w: "world (annotate env st) = world st" and w1: "world ?st1 = w"
    by (simp_all add: annotate_def print_def)
  obtain x ps st2 where p: "process_blocks env ?bs ([], ?st1) = (x, ps, st2)"
    by (cases "process_blocks env ?bs ([], ?st1)")
  have x: "dispatch_raised env w ?bs = x"
    using process_blocks_raised [of env ?bs "[]" ?st1] p w1 by simp
  have ms: "messages st2 = inject_prompt_caching env (messages st)
              @ map one_tool_result_message (dispatch_results env w ?bs)"
    using process_blocks_messages [of env ?bs "[]" ?st1] p w1
    by (simp add: print_def annotate_def tool_result_messages_written_out)
  have ps: "ps = concat (map block_params ?bs)" if "x = None"
    using process_blocks_params [of env ?st1 ?bs "[]"] p w1 that x by simp
  have t: "turn env st =
             (case x of
                Some e \<Rightarrow> (print [api_error e] st2, False)
              | None \<Rightarrow> (st2\<lparr>messages := messages st2 @ [assistant_message ps]\<rparr>,
                         list_ex is_tool_use ps))"
    using assms p by (cases x) (simp_all add: turn_def Let_def w)
  show "messages (fst (turn env st)) =
           inject_prompt_caching env (messages st)
           @ map one_tool_result_message (dispatch_results env w ?bs)
           @ (case dispatch_raised env w ?bs of
                None \<Rightarrow> [assistant_message (concat (map block_params ?bs))]
              | Some e \<Rightarrow> [])"
  proof (cases x)
    case None
    then show ?thesis
      using ps by (simp add: t ms x)
  next
    case (Some e)
    then show ?thesis
      by (simp add: t ms x print_def)
  qed
  show "snd (turn env st) \<longleftrightarrow> dispatch_raised env w ?bs = None \<and> tool_use_ids ?bs \<noteq> []"
  proof (cases x)
    case None
    then show ?thesis
      using ps is_tool_use_params [of env w ?bs] by (simp add: t x)
  next
    case (Some e)
    then show ?thesis
      by (simp add: t x)
  qed
  show "last (stdout (fst (turn env st))) = api_error e"
    if "dispatch_raised env w ?bs = Some e"
    using that by (simp add: t x print_def)
qed

lemma turn_failed:
  assumes "client_create env (world st) (make_request (annotate env st)) = (outcome, w)"
    and "failure outcome = Some e"
  shows "messages (fst (turn env st)) = inject_prompt_caching env (messages st)"
    and "\<not> snd (turn env st)"
    and "stdout (fst (turn env st)) = stdout st @ delivered_text outcome @ [api_error e]"
  using assms
  by (cases outcome; simp add: turn_def Let_def annotate_def print_def)+

lemma one_tool_result_messages_roles:
  "filter (has_role ''user'') (map one_tool_result_message xs) = map one_tool_result_message xs"
  "filter (has_role ''assistant'') (map one_tool_result_message xs) = []"
  by (induction xs) (simp_all add: one_tool_result_message_def has_role_def)

lemma assistant_message_role:
  "has_role ''assistant'' (assistant_message ps)" "\<not> has_role ''user'' (assistant_message ps)"
  by (simp_all add: assistant_message_def has_role_def)

lemma dispatch_results_length:
  "dispatch_raised env w bs = None \<Longrightarrow> length (dispatch_results env w bs) = length (tool_use_ids bs)"
  using dispatch_results_ids [of env w bs] by (metis length_map)

lemma turn_appended:
  assumes "client_create env (world st) (make_request (annotate env st)) = (Stream chunks None, w)"
  shows "take (length (messages st)) (messages (fst (turn env st))) =
           inject_prompt_caching env (messages st)"
    and "drop (length (messages st)) (messages (fst (turn env st))) =
           map one_tool_result_message (dispatch_results env w (response_content_blocks chunks))
           @ (case dispatch_raised env w (response_content_blocks chunks) of
                None \<Rightarrow>
                  [assistant_message (concat (map block_params (response_content_blocks chunks)))]
              | Some e \<Rightarrow> [])"
  by (simp_all add: turn_drained(1) [OF assms] inject_length)

lemma sampling_loop_stops: "\<not> snd (turn env st) \<Longrightarrow> sampling_loop env st = Some (fst (turn env st))"
  by (cases "turn env st") (subst sampling_loop.simps, simp)

lemma sampling_loop_again:
  "snd (turn env st) \<Longrightarrow> sampling_loop env st = sampling_loop env (fst (turn env st))"
  by (cases "turn env st") (subst sampling_loop.simps, simp)

text \<open>
  The scripted service answers the first call of a fresh session with the first outcome
  of its script.
\<close>

lemma scripted_call:
  "world st = 0 \<Longrightarrow>
   client_create (scripted_env (outcome # script)) (world st)
     (make_request (annotate (scripted_env (outcome # script)) st))
   = (outcome, 1)"
  by (simp add: scripted_env_def scripted_create_def annotate_def)

lemma session_world: "world (session msgs) = 0" and session_length: "length (messages (session msgs)) = length msgs"
  by (simp_all add: session_def new_interface_def)

section \<open>What a drained stream appends\<close>

text \<open>
  C1, as the code has it. Let the stream of a pass be drained and let every tool run of
  the assembled response return. Then the pass keeps the annotated transcript and appends
  to it, for the N tool-use blocks of the response, N user messages, each holding exactly
  one tool-result block, in the order of the tool-use blocks and with their identifiers,
  and exactly one assistant message, holding the blocks kept from the response: N + 1
  messages in all.
\<close>

theorem tool_results_one_message_each:
  assumes "client_create env (world st) (make_request (annotate env st)) = (Stream chunks None, w)"
    and "dispatch_raised env w (response_content_blocks chunks) = None"
  shows "take (length (messages st)) (messages (fst (turn env st))) =
           inject_prompt_caching env (messages st)
       \<and> filter (has_role ''assistant'')
            (drop (length (messages st)) (messages (fst (turn env st)))) =
           [JObj [(''role'', JStr ''assistant''),
                  (''content'',
                     JArr (map spec_block_param (filter kept (response_content_blocks chunks))))]]
       \<and> filter (has_role ''user'')
            (drop (length (messages st)) (messages (fst (turn env st)))) =
           map one_tool_result_message (dispatch_results env w (response_content_blocks chunks))
       \<and> map (\<lambda>ir. Some (fst ir)) (dispatch_results env w (response_content_blocks chunks)) =
           tool_use_ids (response_content_blocks chunks)
       \<and> length (messages (fst (turn env st))) =
           length (messages st) + length (tool_use_ids (response_content_blocks chunks)) + 1"
proof -
  have a: "assistant_message (concat (map block_params (response_content_blocks chunks))) =
           JObj [(''role'', JStr ''assistant''),
                 (''content'',
                    JArr (map spec_block_param (filter kept (response_content_blocks chunks))))]"
    using kept_params [OF assms(2)] by (simp add: assistant_message_def)
  have r: "has_role ''assistant''
             (JObj [(''role'', JStr ''assistant''),
                    (''content'',
                       JArr (map spec_block_param (filter kept (response_content_blocks chunks))))])"
      "\<not> has_role ''user''
             (JObj [(''role'', JStr ''assistant''),
                    (''content'',
                       JArr (map spec_block_param (filter kept (response_content_blocks chunks))))])"
    by (simp_all add: has_role_def)
  have l: "length (messages (fst (turn env st))) =
           length (messages st) + length (tool_use_ids (response_content_blocks chunks)) + 1"
    by (simp add: turn_drained(1) [OF assms(1)] assms(2) inject_length
          dispatch_results_length [OF assms(2)])
  show ?thesis
    using turn_appended [OF assms(1)] dispatch_results_ids [OF assms(2)] l
    by (simp add: assms(2) a r one_tool_result_messages_roles)
qed

text \<open>
  An instance of C1: a response with two tool-use blocks, both of which run. The two user
  messages appended are written out.
\<close>

theorem tool_results_one_message_each_witness:
  "client_create (scripted_env [Stream (one_chunk [ls_block ''toolu_1'', ls_block ''toolu_2'']) None])
     (world (session [user_message ''list files'']))
     (make_request (annotate
        (scripted_env [Stream (one_chunk [ls_block ''toolu_1'', ls_block ''toolu_2'']) None])
        (session [user_message ''list files''])))
   = (Stream (one_chunk [ls_block ''toolu_1'', ls_block ''toolu_2'']) None, 1)
   \<and> dispatch_raised
        (scripted_env [Stream (one_chunk [ls_block ''toolu_1'', ls_block ''toolu_2'']) None]) 1
        (response_content_blocks (one_chunk [ls_block ''toolu_1'', ls_block ''toolu_2''])) = None
   \<and> filter (has_role ''user'')
        (drop 1 (messages (fst (turn
           (scripted_env [Stream (one_chunk [ls_block ''toolu_1'', ls_block ''toolu_2'']) None])
           (session [user_message ''list files''])))))
     = [JObj [(''content'',
               JArr [JObj [(''type'', JStr ''tool_result''),
                           (''content'',
                              JArr [JObj [(''type'', JStr ''text''),
                                          (''text'', JStr (''a.txt'' @ CHR 0x0A # ''b.txt''))]]),
                           (''tool_use_id'', JStr ''toolu_1''),
                           (''is_error'', JBool False)]]),
              (''role'', JStr ''user'')],
        JObj [(''content'',
               JArr [JObj [(''type'', JStr ''tool_result''),
                           (''content'',
                              JArr [JObj [(''type'', JStr ''text''),
                                          (''text'', JStr (''a.txt'' @ CHR 0x0A # ''b.txt''))]]),
                           (''tool_use_id'', JStr ''toolu_2''),
                           (''is_error'', JBool False)]]),
              (''role'', JStr ''user'')]]
   \<and> length (messages (fst (turn
           (scripted_env [Stream (one_chunk [ls_block ''toolu_1'', ls_block ''toolu_2'']) None])
           (session [user_message ''list files''])))) = 4"
proof -
  let ?E = "scripted_env [Stream (one_chunk [ls_block ''toolu_1'', ls_block ''toolu_2'']) None]"
  let ?S = "session [user_message ''list files'']"
  let ?bs = "response_content_blocks (one_chunk [ls_block ''toolu_1'', ls_block ''toolu_2''])"
  note c = scripted_call [OF session_world,
             of "Stream (one_chunk [ls_block ''toolu_1'', ls_block ''toolu_2'']) None" "[]"
                "[user_message ''list files'']"]
  have d: "dispatch_raised ?E 1 ?bs = None"
    by code_simp
  have r: "map one_tool_result_message (dispatch_results ?E 1 ?bs)
     = [JObj [(''content'',
               JArr [JObj [(''type'', JStr ''tool_result''),
                           (''content'',
                              JArr [JObj [(''type'', JStr ''text''),
                                          (''text'', JStr (''a.txt'' @ CHR 0x0A # ''b.txt''))]]),
                           (''tool_use_id'', JStr ''toolu_1''),
                           (''is_error'', JBool False)]]),
              (''role'', JStr ''user'')],
        JObj [(''content'',
               JArr [JObj [(''type'', JStr ''tool_result''),
                           (''content'',
                              JArr [JObj [(''type'', JStr ''text''),
                                          (''text'', JStr (''a.txt'' @ CHR 0x0A # ''b.txt''))]]),
                           (''tool_use_id'', JStr ''toolu_2''),
                           (''is_error'', JBool False)]]),
              (''role'', JStr ''user'')]]"
    by code_simp
  have n: "length (tool_use_ids ?bs) = 2"
    by code_simp
  have l: "length (messages ?S) = 1"
    by (simp add: session_length)
  have "filter (has_role ''user'') (drop (length (messages ?S)) (messages (fst (turn ?E ?S))))
          = map one_tool_result_message (dispatch_results ?E 1 ?bs)
        \<and> length (messages (fst (turn ?E ?S))) = length (messages ?S) + length (tool_use_ids ?bs) + 1"
    using tool_results_one_message_each [OF c d] by blast
  then show ?thesis
    unfolding r l n using c d by simp
qed

text \<open>
  C1 as stated fails: with two tool-use blocks, the specification's turn appends the
  assistant message and then one user message with both tool results; the code appends two
  user messages with one tool result each, and the assistant message after them.
\<close>

theorem batched_tool_results_counterexample:
  "drop 1 (messages (fst (turn
      (scripted_env [Stream (one_chunk [ls_block ''toolu_1'', ls_block ''toolu_2'']) None])
      (session [user_message ''list files'']))))
   = [JObj [(''content'',
             JArr [JObj [(''type'', JStr ''tool_result''),
                         (''content'',
                            JArr [JObj [(''type'', JStr ''text''),
                                        (''text'', JStr (''a.txt'' @ CHR 0x0A # ''b.txt''))]]),
                         (''tool_use_id'', JStr ''toolu_1''),
                         (''is_error'', JBool False)]]),
            (''role'', JStr ''user'')],
      JObj [(''content'',
             JArr [JObj [(''type'', JStr ''tool_result''),
                         (''content'',
                            JArr [JObj [(''type'', JStr ''text''),
                                        (''text'', JStr (''a.txt'' @ CHR 0x0A # ''b.txt''))]]),
                         (''tool_use_id'', JStr ''toolu_2''),
                         (''is_error'', JBool False)]]),
            (''role'', JStr ''user'')],
      JObj [(''role'', JStr ''assistant''),
            (''content'',
               JArr [JObj [(''type'', JStr ''tool_use''), (''id'', JStr ''toolu_1''),
                           (''name'', JStr ''bash''),
                           (''input'', JObj [(''command'', JStr ''ls'')])],
                     JObj [(''type'', JStr ''tool_use''), (''id'', JStr ''toolu_2''),
                           (''name'', JStr ''bash''),
                           (''input'', JObj [(''command'', JStr ''ls'')])]])]]
   \<and> drop 1 (messages (fst (turn
      (scripted_env [Stream (one_chunk [ls_block ''toolu_1'', ls_block ''toolu_2'']) None])
      (session [user_message ''list files'']))))
   \<noteq> spec_turn_messages [ls_block ''toolu_1'', ls_block ''toolu_2'']
         [(''toolu_1'', ls_result), (''toolu_2'', ls_result)]"
  by code_simp

text \<open>
  C3, as the code has it. After a drained stream whose tool runs all return, the one
  assistant message appended holds, as they are and in the order assembled, the text
  blocks whose text is not empty and the tool-use blocks, and no other block.
\<close>

theorem assistant_message_keeps_text_and_tool_use:
  assumes "client_create env (world st) (make_request (annotate env st)) = (Stream chunks None, w)"
    and "dispatch_raised env w (response_content_blocks chunks) = None"
  shows "filter (has_role ''assistant'')
           (drop (length (messages st)) (messages (fst (turn env st)))) =
         [JObj [(''role'', JStr ''assistant''),
                (''content'',
                   JArr (map spec_block_param (filter kept (response_content_blocks chunks))))]]"
proof -
  have "assistant_message (concat (map block_params (response_content_blocks chunks))) =
           JObj [(''role'', JStr ''assistant''),
                 (''content'',
                    JArr (map spec_block_param (filter kept (response_content_blocks chunks))))]"
    using kept_params [OF assms(2)] by (simp add: assistant_message_def)
  then show ?thesis
    using turn_appended(2) [OF assms(1)]
    by (simp add: assms(2) one_tool_result_messages_roles has_role_def)
qed

text \<open>
  An instance of C3: a text block, a tool-use block and a thinking block. The assistant
  message appended is written out.
\<close>

theorem assistant_message_keeps_text_and_tool_use_witness:
  "client_create
     (scripted_env [Stream (one_chunk [TextBlock (Some ''Listing.''), ls_block ''toolu_1'',
                                       ThinkingBlock ''done'']) None])
     (world (session [user_message ''list files'']))
     (make_request (annotate
        (scripted_env [Stream (one_chunk [TextBlock (Some ''Listing.''), ls_block ''toolu_1'',
                                          ThinkingBlock ''done'']) None])
        (session [user_message ''list files''])))
   = (Stream (one_chunk [TextBlock (Some ''Listing.''), ls_block ''toolu_1'',
                         ThinkingBlock ''done'']) None, 1)
   \<and> dispatch_raised
        (scripted_env [Stream (one_chunk [TextBlock (Some ''Listing.''), ls_block ''toolu_1'',
                                          ThinkingBlock ''done'']) None]) 1
        (response_content_blocks (one_chunk [TextBlock (Some ''Listing.''), ls_block ''toolu_1'',
                                             ThinkingBlock ''done''])) = None
   \<and> filter (has_role ''assistant'')
        (drop 1 (messages (fst (turn
           (scripted_env [Stream (one_chunk [TextBlock (Some ''Listing.''), ls_block ''toolu_1'',
                                             ThinkingBlock ''done'']) None])
           (session [user_message ''list files''])))))
     = [JObj [(''role'', JStr ''assistant''),
              (''content'',
                 JArr [JObj [(''type'', JStr ''text''), (''text'', JStr ''Listing.'')],
                       JObj [(''type'', JStr ''tool_use''), (''id'', JStr ''toolu_1''),
                             (''name'', JStr ''bash''),
                             (''input'', JObj [(''command'', JStr ''ls'')])]])]]"
proof -
  let ?E = "scripted_env [Stream (one_chunk [TextBlock (Some ''Listing.''), ls_block ''toolu_1'',
                                             ThinkingBlock ''done'']) None]"
  let ?S = "session [user_message ''list files'']"
  let ?bs = "response_content_blocks (one_chunk [TextBlock (Some ''Listing.''), ls_block ''toolu_1'',
                                                 ThinkingBlock ''done''])"
  note c = scripted_call [OF session_world,
             of "Stream (one_chunk [TextBlock (Some ''Listing.''), ls_block ''toolu_1'',
                                    ThinkingBlock ''done'']) None" "[]"
                "[user_message ''list files'']"]
  have d: "dispatch_raised ?E 1 ?bs = None"
    by code_simp
  have k: "map spec_block_param (filter kept ?bs)
           = [JObj [(''type'', JStr ''text''), (''text'', JStr ''Listing.'')],
              JObj [(''type'', JStr ''tool_use''), (''id'', JStr ''toolu_1''),
                    (''name'', JStr ''bash''),
                    (''input'', JObj [(''command'', JStr ''ls'')])]]"
    by code_simp
  have l: "length (messages ?S) = 1"
    by (simp add: session_length)
  show ?thesis
    using assistant_message_keeps_text_and_tool_use [OF c d] c d
    unfolding k l by simp
qed

text \<open>
  C3 as stated fails: of a thinking block, a text block with empty text and a text block
  with text, the assistant message appended holds the last one only.
\<close>

theorem verbatim_assistant_message_counterexample:
  "filter (has_role ''assistant'')
     (drop 1 (messages (fst (turn
        (scripted_env [Stream (one_chunk [ThinkingBlock ''plan'', TextBlock (Some ''''),
                                          TextBlock (Some ''hi'')]) None])
        (session [user_message ''hello''])))))
   = [JObj [(''role'', JStr ''assistant''),
            (''content'', JArr [JObj [(''type'', JStr ''text''), (''text'', JStr ''hi'')]])]]
   \<and> filter (has_role ''assistant'')
     (drop 1 (messages (fst (turn
        (scripted_env [Stream (one_chunk [ThinkingBlock ''plan'', TextBlock (Some ''''),
                                          TextBlock (Some ''hi'')]) None])
        (session [user_message ''hello''])))))
   \<noteq> [spec_assistant_message [ThinkingBlock ''plan'', TextBlock (Some ''''),
                               TextBlock (Some ''hi'')]]"
  by code_simp

section \<open>When the loop ends\<close>

text \<open>
  C4, as the code has it. When the stream is drained and the response has no tool-use
  block, the loop returns after this pass and the transcript has one message more. With
  tool-use blocks whose runs all return, the loop goes round again. With a tool run that
  raises, the loop returns after this pass as well, with one message more for each tool
  run that returned before it.
\<close>

theorem no_tool_use_ends_loop:
  assumes "client_create env (world st) (make_request (annotate env st)) = (Stream chunks None, w)"
  shows "(tool_use_ids (response_content_blocks chunks) = [] \<longrightarrow>
            sampling_loop env st = Some (fst (turn env st))
          \<and> length (messages (fst (turn env st))) = length (messages st) + 1)
       \<and> (tool_use_ids (response_content_blocks chunks) \<noteq> []
            \<and> dispatch_raised env w (response_content_blocks chunks) = None \<longrightarrow>
            sampling_loop env st = sampling_loop env (fst (turn env st)))
       \<and> (dispatch_raised env w (response_content_blocks chunks) = Some e \<longrightarrow>
            sampling_loop env st = Some (fst (turn env st))
          \<and> length (messages (fst (turn env st))) =
              length (messages st)
              + length (dispatch_results env w (response_content_blocks chunks)))"
proof -
  have none: "dispatch_raised env w bs = None \<and> dispatch_results env w bs = []"
    if "tool_use_ids bs = []" for bs
    using that by (induction bs rule: tool_use_ids.induct) simp_all
  have "sampling_loop env st = Some (fst (turn env st))
          \<and> length (messages (fst (turn env st))) = length (messages st) + 1"
    if "tool_use_ids (response_content_blocks chunks) = []"
    using turn_drained(1,2) [OF assms] none [OF that] that
    by (simp add: sampling_loop_stops inject_length)
  moreover have "sampling_loop env st = sampling_loop env (fst (turn env st))"
    if "tool_use_ids (response_content_blocks chunks) \<noteq> []"
      and "dispatch_raised env w (response_content_blocks chunks) = None"
    using turn_drained(2) [OF assms] that by (simp add: sampling_loop_again)
  moreover have "sampling_loop env st = Some (fst (turn env st))
          \<and> length (messages (fst (turn env st))) =
              length (messages st)
              + length (dispatch_results env w (response_content_blocks chunks))"
    if "dispatch_raised env w (response_content_blocks chunks) = Some e"
    using turn_drained(1,2) [OF assms] that
    by (simp add: sampling_loop_stops inject_length)
  ultimately show ?thesis by blast
qed

text \<open>
  An instance of C4 for each case: a response of text only, a response with one tool-use
  block that runs, and a response whose second tool run raises.
\<close>

theorem no_tool_use_ends_loop_witness:
  "client_create (scripted_env [Stream (one_chunk [TextBlock (Some ''Two files.'')]) None])
     (world (session [user_message ''list files'']))
     (make_request (annotate
        (scripted_env [Stream (one_chunk [TextBlock (Some ''Two files.'')]) None])
        (session [user_message ''list files''])))
   = (Stream (one_chunk [TextBlock (Some ''Two files.'')]) None, 1)
   \<and> tool_use_ids (response_content_blocks (one_chunk [TextBlock (Some ''Two files.'')])) = []
   \<and> sampling_loop (scripted_env [Stream (one_chunk [TextBlock (Some ''Two files.'')]) None])
        (session [user_message ''list files''])
     = Some (fst (turn (scripted_env [Stream (one_chunk [TextBlock (Some ''Two files.'')]) None])
                    (session [user_message ''list files''])))
   \<and> length (messages (fst (turn
        (scripted_env [Stream (one_chunk [TextBlock (Some ''Two files.'')]) None])
        (session [user_message ''list files''])))) = 2
   \<and> client_create (scripted_env [Stream (one_chunk [ls_block ''toolu_1'']) None])
        (world (session [user_message ''list files'']))
        (make_request (annotate
           (scripted_env [Stream (one_chunk [ls_block ''toolu_1'']) None])
           (session [user_message ''list files''])))
     = (Stream (one_chunk [ls_block ''toolu_1'']) None, 1)
   \<and> tool_use_ids (response_content_blocks (one_chunk [ls_block ''toolu_1''])) = [Some ''toolu_1'']
   \<and> dispatch_raised (scripted_env [Stream (one_chunk [ls_block ''toolu_1'']) None]) 1
        (response_content_blocks (one_chunk [ls_block ''toolu_1''])) = None
   \<and> sampling_loop (scripted_env [Stream (one_chunk [ls_block ''toolu_1'']) None])
        (session [user_message ''list files''])
     = sampling_loop (scripted_env [Stream (one_chunk [ls_block ''toolu_1'']) None])
         (fst (turn (scripted_env [Stream (one_chunk [ls_block ''toolu_1'']) None])
                 (session [user_message ''list files''])))
   \<and> client_create (scripted_env [Stream (one_chunk [ls_block ''toolu_1'', bad_block ''toolu_2'']) None])
        (world (session [user_message ''list files'']))
        (make_request (annotate
           (scripted_env [Stream (one_chunk [ls_block ''toolu_1'', bad_block ''toolu_2'']) None])
           (session [user_message ''list files''])))
     = (Stream (one_chunk [ls_block ''toolu_1'', bad_block ''toolu_2'']) None, 1)
   \<and> dispatch_raised
        (scripted_env [Stream (one_chunk [ls_block ''toolu_1'', bad_block ''toolu_2'']) None]) 1
        (response_content_blocks (one_chunk [ls_block ''toolu_1'', bad_block ''toolu_2'']))
      = Some ''no command provided''
   \<and> sampling_loop
        (scripted_env [Stream (one_chunk [ls_block ''toolu_1'', bad_block ''toolu_2'']) None])
        (session [user_message ''list files''])
     = Some (fst (turn
         (scripted_env [Stream (one_chunk [ls_block ''toolu_1'', bad_block ''toolu_2'']) None])
         (session [user_message ''list files''])))
   \<and> length (messages (fst (turn
         (scripted_env [Stream (one_chunk [ls_block ''toolu_1'', bad_block ''toolu_2'']) None])
         (session [user_message ''list files''])))) = 2"
proof -
  let ?S = "session [user_message ''list files'']"
  let ?E1 = "scripted_env [Stream (one_chunk [TextBlock (Some ''Two files.'')]) None]"
  let ?E2 = "scripted_env [Stream (one_chunk [ls_block ''toolu_1'']) None]"
  let ?E3 = "scripted_env [Stream (one_chunk [ls_block ''toolu_1'', bad_block ''toolu_2'']) None]"
  let ?b1 = "response_content_blocks (one_chunk [TextBlock (Some ''Two files.'')])"
  let ?b2 = "response_content_blocks (one_chunk [ls_block ''toolu_1''])"
  let ?b3 = "response_content_blocks (one_chunk [ls_block ''toolu_1'', bad_block ''toolu_2''])"
  note c1 = scripted_call [OF session_world,
              of "Stream (one_chunk [TextBlock (Some ''Two files.'')]) None" "[]"
                 "[user_message ''list files'']"]
  note c2 = scripted_call [OF session_world,
              of "Stream (one_chunk [ls_block ''toolu_1'']) None" "[]"
                 "[user_message ''list files'']"]
  note c3 = scripted_call [OF session_world,
              of "Stream (one_chunk [ls_block ''toolu_1'', bad_block ''toolu_2'']) None" "[]"
                 "[user_message ''list files'']"]
  have a: "tool_use_ids ?b1 = []"
    by code_simp
  have b: "tool_use_ids ?b2 = [Some ''toolu_1'']"
    by code_simp
  have d2: "dispatch_raised ?E2 1 ?b2 = None"
    by code_simp
  have d3: "dispatch_raised ?E3 1 ?b3 = Some ''no command provided''"
    by code_simp
  have r3: "length (dispatch_results ?E3 1 ?b3) = 1"
    by code_simp
  have l: "length (messages ?S) = 1"
    by (simp add: session_length)
  have 1: "sampling_loop ?E1 ?S = Some (fst (turn ?E1 ?S))
           \<and> length (messages (fst (turn ?E1 ?S))) = length (messages ?S) + 1"
    using no_tool_use_ends_loop [OF c1] a by blast
  have 2: "sampling_loop ?E2 ?S = sampling_loop ?E2 (fst (turn ?E2 ?S))"
    using no_tool_use_ends_loop [OF c2] b d2 by simp
  have 3: "sampling_loop ?E3 ?S = Some (fst (turn ?E3 ?S))
           \<and> length (messages (fst (turn ?E3 ?S))) =
               length (messages ?S) + length (dispatch_results ?E3 1 ?b3)"
    using no_tool_use_ends_loop [OF c3, of "''no command provided''"] d3 by blast
  show ?thesis
    using 1 2 3 c1 c2 c3 a b d2 d3 unfolding l r3 by simp
qed

text \<open>
  C4 as stated fails: no tool-use block is not the only way out of the loop. A response
  with one tool-use block whose run raises ends the loop after that pass: one call was
  made, and the transcript is the annotated one.
\<close>

theorem failed_tool_run_ends_loop_counterexample:
  "client_create (scripted_env [Stream (one_chunk [bad_block ''toolu_1'']) None])
     (world (session [user_message ''list files'']))
     (make_request (annotate
        (scripted_env [Stream (one_chunk [bad_block ''toolu_1'']) None])
        (session [user_message ''list files''])))
   = (Stream (one_chunk [bad_block ''toolu_1'']) None, 1)
   \<and> tool_use_ids (response_content_blocks (one_chunk [bad_block ''toolu_1'']))
     = [Some ''toolu_1'']
   \<and> map_option messages
       (sampling_loop (scripted_env [Stream (one_chunk [bad_block ''toolu_1'']) None])
          (session [user_message ''list files'']))
     = Some [JObj [(''role'', JStr ''user''),
                   (''content'',
                      JArr [JObj [(''type'', JStr ''text''), (''text'', JStr ''list files'')]]),
                   (''cache_control'', JObj [(''type'', JStr ''ephemeral'')])]]
   \<and> map_option world
       (sampling_loop (scripted_env [Stream (one_chunk [bad_block ''toolu_1'']) None])
          (session [user_message ''list files'']))
     = Some 1"
  by code_simp

text \<open>
  C10, as the code has it. After a drained stream whose tool runs all return, the pass
  has appended exactly one assistant message. When a tool run raises, the pass has
  appended no assistant message and the loop returns. When the response holds no block
  at all, the assistant message has an empty content, it is the only message appended,
  and the loop returns.
\<close>

theorem drained_stream_appends_one_assistant_message:
  assumes "client_create env (world st) (make_request (annotate env st)) = (Stream chunks None, w)"
  shows "(dispatch_raised env w (response_content_blocks chunks) = None \<longrightarrow>
            length (filter (has_role ''assistant'')
                      (drop (length (messages st)) (messages (fst (turn env st))))) = 1)
       \<and> (dispatch_raised env w (response_content_blocks chunks) = Some e \<longrightarrow>
            filter (has_role ''assistant'')
              (drop (length (messages st)) (messages (fst (turn env st)))) = []
          \<and> sampling_loop env st = Some (fst (turn env st)))
       \<and> (response_content_blocks chunks = [] \<longrightarrow>
            messages (fst (turn env st)) =
              inject_prompt_caching env (messages st)
              @ [JObj [(''role'', JStr ''assistant''), (''content'', JArr [])]]
          \<and> sampling_loop env st = Some (fst (turn env st)))"
proof -
  have 1: "length (filter (has_role ''assistant'')
                      (drop (length (messages st)) (messages (fst (turn env st))))) = 1"
    if "dispatch_raised env w (response_content_blocks chunks) = None"
    using turn_appended(2) [OF assms] that
    by (simp add: one_tool_result_messages_roles assistant_message_role)
  have 2: "filter (has_role ''assistant'')
              (drop (length (messages st)) (messages (fst (turn env st)))) = []
          \<and> sampling_loop env st = Some (fst (turn env st))"
    if "dispatch_raised env w (response_content_blocks chunks) = Some e"
    using turn_appended(2) [OF assms] turn_drained(2) [OF assms] that
    by (simp add: one_tool_result_messages_roles sampling_loop_stops)
  have 3: "messages (fst (turn env st)) =
              inject_prompt_caching env (messages st)
              @ [JObj [(''role'', JStr ''assistant''), (''content'', JArr [])]]
          \<and> sampling_loop env st = Some (fst (turn env st))"
    if "response_content_blocks chunks = []"
    using turn_drained(1,2) [OF assms] that
    by (simp add: sampling_loop_stops assistant_message_def)
  show ?thesis
    using 1 2 3 by blast
qed

text \<open>
  An instance of C10 for the empty response, and one for a response whose second tool
  run raises.
\<close>

theorem drained_stream_appends_one_assistant_message_witness:
  "client_create (scripted_env [Stream [Chunk None] None]) (world (session [user_message ''hello'']))
     (make_request (annotate (scripted_env [Stream [Chunk None] None])
                      (session [user_message ''hello''])))
   = (Stream [Chunk None] None, 1)
   \<and> response_content_blocks [Chunk None] = []
   \<and> dispatch_raised (scripted_env [Stream [Chunk None] None]) 1
        (response_content_blocks [Chunk None]) = None
   \<and> messages (fst (turn (scripted_env [Stream [Chunk None] None])
                       (session [user_message ''hello''])))
     = [JObj [(''role'', JStr ''user''),
              (''content'', JArr [JObj [(''type'', JStr ''text''), (''text'', JStr ''hello'')]]),
              (''cache_control'', JObj [(''type'', JStr ''ephemeral'')])],
        JObj [(''role'', JStr ''assistant''), (''content'', JArr [])]]
   \<and> length (filter (has_role ''assistant'')
        (drop 1 (messages (fst (turn (scripted_env [Stream [Chunk None] None])
                                  (session [user_message ''hello''])))))) = 1
   \<and> sampling_loop (scripted_env [Stream [Chunk None] None]) (session [user_message ''hello''])
     = Some (fst (turn (scripted_env [Stream [Chunk None] None])
                    (session [user_message ''hello''])))
   \<and> client_create
        (scripted_env [Stream (one_chunk [ls_block ''toolu_1'', bad_block ''toolu_2'']) None])
        (world (session [user_message ''list files'']))
        (make_request (annotate
           (scripted_env [Stream (one_chunk [ls_block ''toolu_1'', bad_block ''toolu_2'']) None])
           (session [user_message ''list files''])))
     = (Stream (one_chunk [ls_block ''toolu_1'', bad_block ''toolu_2'']) None, 1)
   \<and> dispatch_raised
        (scripted_env [Stream (one_chunk [ls_block ''toolu_1'', bad_block ''toolu_2'']) None]) 1
        (response_content_blocks (one_chunk [ls_block ''toolu_1'', bad_block ''toolu_2'']))
      = Some ''no command provided''
   \<and> filter (has_role ''assistant'')
        (drop 1 (messages (fst (turn
           (scripted_env [Stream (one_chunk [ls_block ''toolu_1'', bad_block ''toolu_2'']) None])
           (session [user_message ''list files'']))))) = []
   \<and> sampling_loop
        (scripted_env [Stream (one_chunk [ls_block ''toolu_1'', bad_block ''toolu_2'']) None])
        (session [user_message ''list files''])
     = Some (fst (turn
         (scripted_env [Stream (one_chunk [ls_block ''toolu_1'', bad_block ''toolu_2'']) None])
         (session [user_message ''list files''])))"
proof -
  let ?S1 = "session [user_message ''hello'']"
  let ?S3 = "session [user_message ''list files'']"
  let ?E1 = "scripted_env [Stream [Chunk None] None]"
  let ?E3 = "scripted_env [Stream (one_chunk [ls_block ''toolu_1'', bad_block ''toolu_2'']) None]"
  let ?b3 = "response_content_blocks (one_chunk [ls_block ''toolu_1'', bad_block ''toolu_2''])"
  note c1 = scripted_call [OF session_world, of "Stream [Chunk None] None" "[]"
                             "[user_message ''hello'']"]
  note c3 = scripted_call [OF session_world,
              of "Stream (one_chunk [ls_block ''toolu_1'', bad_block ''toolu_2'']) None" "[]"
                 "[user_message ''list files'']"]
  have e: "response_content_blocks [Chunk None] = []"
    by (simp add: response_content_blocks_def)
  have d1: "dispatch_raised ?E1 1 (response_content_blocks [Chunk None]) = None"
    by (simp add: e)
  have d3: "dispatch_raised ?E3 1 ?b3 = Some ''no command provided''"
    by code_simp
  have i: "inject_prompt_caching ?E1 (messages ?S1)
           = [JObj [(''role'', JStr ''user''),
              (''content'', JArr [JObj [(''type'', JStr ''text''), (''text'', JStr ''hello'')]]),
              (''cache_control'', JObj [(''type'', JStr ''ephemeral'')])]]"
    by code_simp
  have l1: "length (messages ?S1) = 1" and l3: "length (messages ?S3) = 1"
    by (simp_all add: session_length)
  have 1: "length (filter (has_role ''assistant'')
             (drop (length (messages ?S1)) (messages (fst (turn ?E1 ?S1))))) = 1
        \<and> messages (fst (turn ?E1 ?S1))
            = inject_prompt_caching ?E1 (messages ?S1)
              @ [JObj [(''role'', JStr ''assistant''), (''content'', JArr [])]]
        \<and> sampling_loop ?E1 ?S1 = Some (fst (turn ?E1 ?S1))"
    using drained_stream_appends_one_assistant_message [OF c1] e d1 by blast
  have 3: "filter (has_role ''assistant'')
             (drop (length (messages ?S3)) (messages (fst (turn ?E3 ?S3)))) = []
        \<and> sampling_loop ?E3 ?S3 = Some (fst (turn ?E3 ?S3))"
    using drained_stream_appends_one_assistant_message [OF c3, of "''no command provided''"] d3
    by blast
  note 1 = 1 [unfolded i l1 append_Cons append_Nil]
  note 3 = 3 [unfolded l3]
  show ?thesis
    using 1 3 c1 c3 e d1 d3 by blast
qed

text \<open>
  C10 as stated fails: the stream is drained, the first tool runs and its result is
  appended, the second tool run raises, and the pass ends with no assistant message in
  the transcript.
\<close>

theorem failed_tool_run_counterexample:
  "client_create
     (scripted_env [Stream (one_chunk [ls_block ''toolu_1'', bad_block ''toolu_2'']) None])
     (world (session [user_message ''list files'']))
     (make_request (annotate
        (scripted_env [Stream (one_chunk [ls_block ''toolu_1'', bad_block ''toolu_2'']) None])
        (session [user_message ''list files''])))
   = (Stream (one_chunk [ls_block ''toolu_1'', bad_block ''toolu_2'']) None, 1)
   \<and> messages (fst (turn
        (scripted_env [Stream (one_chunk [ls_block ''toolu_1'', bad_block ''toolu_2'']) None])
        (session [user_message ''list files''])))
     = [JObj [(''role'', JStr ''user''),
              (''content'',
                 JArr [JObj [(''type'', JStr ''text''), (''text'', JStr ''list files'')]]),
              (''cache_control'', JObj [(''type'', JStr ''ephemeral'')])],
        JObj [(''content'',
               JArr [JObj [(''type'', JStr ''tool_result''),
                           (''content'',
                              JArr [JObj [(''type'', JStr ''text''),
                                          (''text'', JStr (''a.txt'' @ CHR 0x0A # ''b.txt''))]]),
                           (''tool_use_id'', JStr ''toolu_1''),
                           (''is_error'', JBool False)]]),
              (''role'', JStr ''user'')]]
   \<and> filter (has_role ''assistant'')
        (messages (fst (turn
           (scripted_env [Stream (one_chunk [ls_block ''toolu_1'', bad_block ''toolu_2'']) None])
           (session [user_message ''list files''])))) = []
   \<and> sampling_loop
        (scripted_env [Stream (one_chunk [ls_block ''toolu_1'', bad_block ''toolu_2'']) None])
        (session [user_message ''list files''])
     = Some (fst (turn
         (scripted_env [Stream (one_chunk [ls_block ''toolu_1'', bad_block ''toolu_2'']) None])
         (session [user_message ''list files''])))"
proof -
  let ?E = "scripted_env [Stream (one_chunk [ls_block ''toolu_1'', bad_block ''toolu_2'']) None]"
  let ?S = "session [user_message ''list files'']"
  have a: "client_create ?E (world ?S) (make_request (annotate ?E ?S))
           = (Stream (one_chunk [ls_block ''toolu_1'', bad_block ''toolu_2'']) None, 1)"
    by code_simp
  have b: "messages (fst (turn ?E ?S))
     = [JObj [(''role'', JStr ''user''),
              (''content'',
                 JArr [JObj [(''type'', JStr ''text''), (''text'', JStr ''list files'')]]),
              (''cache_control'', JObj [(''type'', JStr ''ephemeral'')])],
        JObj [(''content'',
               JArr [JObj [(''type'', JStr ''tool_result''),
                           (''content'',
                              JArr [JObj [(''type'', JStr ''text''),
                                          (''text'', JStr (''a.txt'' @ CHR 0x0A # ''b.txt''))]]),
                           (''tool_use_id'', JStr ''toolu_1''),
                           (''is_error'', JBool False)]]),
              (''role'', JStr ''user'')]]"
    by code_simp
  have c: "filter (has_role ''assistant'') (messages (fst (turn ?E ?S))) = []"
    by code_simp
  have d: "\<not> snd (turn ?E ?S)"
    by code_simp
  show ?thesis
    using a b c sampling_loop_stops [OF d] by blast
qed

section \<open>A failing remote call\<close>

lemma api_error_written_out:
  "api_error e = CHR 0x0A # CHR 0x1B # ''[91mError calling Claude API: '' @ e @ CHR 0x1B # ''[0m'' @ [CHR 0x0A]"
  by (simp add: api_error_def nl_def RED_def ENDC_def)

text \<open>
  C2. When the remote call raises, or the stream raises before its end, the loop returns
  with the transcript as the annotator left it before the call, which is the transcript
  the request carried: no message is appended, and every message has the role and the
  content it had. The text delivered so far and then the line
  \<open>Error calling Claude API:\<close> with the exception, in red, are what the pass prints.
  The interaction loop then prints two newlines and reads the next line; at the end of the
  input it stops as it does in any session.
\<close>

theorem remote_failure_keeps_transcript:
  assumes "client_create env (world st) (make_request (annotate env st)) = (outcome, w)"
    and "failure outcome = Some e"
  shows "sampling_loop env st = Some (fst (turn env st))
       \<and> messages (fst (turn env st)) = inject_prompt_caching env (messages st)
       \<and> messages (fst (turn env st)) = req_messages (make_request (annotate env st))
       \<and> length (messages (fst (turn env st))) = length (messages st)
       \<and> map role_and_content (messages (fst (turn env st))) = map role_and_content (messages st)
       \<and> last (stdout (fst (turn env st))) = api_error e
       \<and> stdout (fst (turn env st)) =
           stdout st @ delivered_text outcome
           @ [CHR 0x0A # CHR 0x1B # ''[91mError calling Claude API: '' @ e
              @ CHR 0x1B # ''[0m'' @ [CHR 0x0A]]
       \<and> (\<not> startswith (strip line) ''/'' \<and> st = add_user_input (strip line) (prompt_user st0) \<longrightarrow>
            run_loop env (line # rest) st0 =
              run_loop env rest (print [nl @ nl] (fst (turn env st)))
          \<and> run_loop env [line] st0 =
              Some (print [run_error ''EOF when reading a line'']
                      (prompt_user (print [nl @ nl] (fst (turn env st))))))"
proof -
  have stop: "sampling_loop env st = Some (fst (turn env st))"
    using turn_failed(2) [OF assms] by (rule sampling_loop_stops)
  have "run_loop env (line # rest) st0 = run_loop env rest (print [nl @ nl] (fst (turn env st)))"
    if "\<not> startswith (strip line) ''/''" and "st = add_user_input (strip line) (prompt_user st0)"
    for rest
    using that stop by (simp add: Let_def)
  from this [of rest] this [of "[]"]
  have run: "\<not> startswith (strip line) ''/'' \<and> st = add_user_input (strip line) (prompt_user st0) \<longrightarrow>
            run_loop env (line # rest) st0 =
              run_loop env rest (print [nl @ nl] (fst (turn env st)))
          \<and> run_loop env [line] st0 =
              Some (print [run_error ''EOF when reading a line'']
                      (prompt_user (print [nl @ nl] (fst (turn env st)))))"
    by simp
  have out: "stdout (fst (turn env st)) =
           stdout st @ delivered_text outcome
           @ [CHR 0x0A # CHR 0x1B # ''[91mError calling Claude API: '' @ e
              @ CHR 0x1B # ''[0m'' @ [CHR 0x0A]]"
    using turn_failed(3) [OF assms] by (simp only: api_error_written_out)
  have last: "last (stdout (fst (turn env st))) = api_error e"
    using turn_failed(3) [OF assms] by simp
  show ?thesis
    using stop turn_failed(1) [OF assms] run out last
    by (simp add: inject_length inject_role_and_content make_request_def annotate_def)
qed

text \<open>
  An instance of C2: the stream breaks after a first fragment. The transcript, the output
  and the transcript at the end of a session that goes on with a second line are written
  out.
\<close>

theorem remote_failure_keeps_transcript_witness:
  "client_create
     (scripted_env [Stream (one_chunk [TextBlock (Some ''Two'')]) (Some ''Connection reset''),
                    Stream (one_chunk [TextBlock (Some ''Hi.'')]) None])
     (world (add_user_input (strip ''list files'') (prompt_user (session []))))
     (make_request (annotate
        (scripted_env [Stream (one_chunk [TextBlock (Some ''Two'')]) (Some ''Connection reset''),
                       Stream (one_chunk [TextBlock (Some ''Hi.'')]) None])
        (add_user_input (strip ''list files'') (prompt_user (session [])))))
   = (Stream (one_chunk [TextBlock (Some ''Two'')]) (Some ''Connection reset''), 1)
   \<and> failure (Stream (one_chunk [TextBlock (Some ''Two'')]) (Some ''Connection reset''))
     = Some ''Connection reset''
   \<and> \<not> startswith (strip ''list files'') ''/''
   \<and> messages (add_user_input (strip ''list files'') (prompt_user (session [])))
     = [JObj [(''role'', JStr ''user''),
              (''content'',
                 JArr [JObj [(''type'', JStr ''text''), (''text'', JStr ''list files'')]])]]
   \<and> map_option messages (sampling_loop
        (scripted_env [Stream (one_chunk [TextBlock (Some ''Two'')]) (Some ''Connection reset''),
                       Stream (one_chunk [TextBlock (Some ''Hi.'')]) None])
        (add_user_input (strip ''list files'') (prompt_user (session []))))
     = Some [JObj [(''role'', JStr ''user''),
                   (''content'',
                      JArr [JObj [(''type'', JStr ''text''), (''text'', JStr ''list files'')]]),
                   (''cache_control'', JObj [(''type'', JStr ''ephemeral'')])]]
   \<and> stdout (fst (turn
        (scripted_env [Stream (one_chunk [TextBlock (Some ''Two'')]) (Some ''Connection reset''),
                       Stream (one_chunk [TextBlock (Some ''Hi.'')]) None])
        (add_user_input (strip ''list files'') (prompt_user (session [])))))
     = [CHR 0x1B # ''[94mYou:'' @ CHR 0x1B # ''[0m '',
        CHR 0x0A # CHR 0x1B # ''[92mClaude:'' @ CHR 0x1B # ''[0m '',
        ''Two'',
        CHR 0x0A # CHR 0x1B # ''[91mError calling Claude API: Connection reset''
          @ CHR 0x1B # ''[0m'' @ [CHR 0x0A]]
   \<and> map_option messages (run_loop
        (scripted_env [Stream (one_chunk [TextBlock (Some ''Two'')]) (Some ''Connection reset''),
                       Stream (one_chunk [TextBlock (Some ''Hi.'')]) None])
        [''list files'', ''hello''] (session []))
     = Some [JObj [(''role'', JStr ''user''),
                   (''content'',
                      JArr [JObj [(''type'', JStr ''text''), (''text'', JStr ''list files'')]]),
                   (''cache_control'', JObj [(''type'', JStr ''ephemeral'')])],
             JObj [(''role'', JStr ''user''),
                   (''content'',
                      JArr [JObj [(''type'', JStr ''text''), (''text'', JStr ''hello'')]]),
                   (''cache_control'', JObj [(''type'', JStr ''ephemeral'')])],
             JObj [(''role'', JStr ''assistant''),
                   (''content'',
                      JArr [JObj [(''type'', JStr ''text''), (''text'', JStr ''Hi.'')]])]]"
proof -
  let ?E = "scripted_env [Stream (one_chunk [TextBlock (Some ''Two'')]) (Some ''Connection reset''),
                          Stream (one_chunk [TextBlock (Some ''Hi.'')]) None]"
  let ?S = "add_user_input (strip ''list files'') (prompt_user (session []))"
  let ?out = "Stream (one_chunk [TextBlock (Some ''Two'')]) (Some ''Connection reset'')"
  have w: "world ?S = 0"
    by (simp add: add_user_input_def prompt_user_def print_def session_def new_interface_def)
  have f: "failure ?out = Some ''Connection reset''"
    by simp
  have n: "\<not> startswith (strip ''list files'') ''/''"
    by code_simp
  note c = scripted_call [OF w, of ?out "[Stream (one_chunk [TextBlock (Some ''Hi.'')]) None]"]
  note t = remote_failure_keeps_transcript [OF c f, of "''list files''" "session []" "[''hello'']"]
  have m0: "messages ?S
     = [JObj [(''role'', JStr ''user''),
              (''content'',
                 JArr [JObj [(''type'', JStr ''text''), (''text'', JStr ''list files'')]])]]"
    by code_simp
  have i: "inject_prompt_caching ?E (messages ?S)
     = [JObj [(''role'', JStr ''user''),
                   (''content'',
                      JArr [JObj [(''type'', JStr ''text''), (''text'', JStr ''list files'')]]),
                   (''cache_control'', JObj [(''type'', JStr ''ephemeral'')])]]"
    by code_simp
  have o: "stdout ?S @ delivered_text ?out
     = [CHR 0x1B # ''[94mYou:'' @ CHR 0x1B # ''[0m '',
        CHR 0x0A # CHR 0x1B # ''[92mClaude:'' @ CHR 0x1B # ''[0m '',
        ''Two'']"
    by code_simp
  have 1: "map_option messages (sampling_loop ?E ?S) = Some (inject_prompt_caching ?E (messages ?S))"
    using t by simp
  have 2: "stdout (fst (turn ?E ?S))
     = (stdout ?S @ delivered_text ?out)
       @ [CHR 0x0A # CHR 0x1B # ''[91mError calling Claude API: '' @ ''Connection reset''
          @ CHR 0x1B # ''[0m'' @ [CHR 0x0A]]"
    using t by simp
  have 3: "run_loop ?E [''list files'', ''hello''] (session [])
           = run_loop ?E [''hello''] (print [nl @ nl] (fst (turn ?E ?S)))"
    using t n by blast
  have 4: "map_option messages (run_loop ?E [''hello''] (print [nl @ nl] (fst (turn ?E ?S))))
     = Some [JObj [(''role'', JStr ''user''),
                   (''content'',
                      JArr [JObj [(''type'', JStr ''text''), (''text'', JStr ''list files'')]]),
                   (''cache_control'', JObj [(''type'', JStr ''ephemeral'')])],
             JObj [(''role'', JStr ''user''),
                   (''content'',
                      JArr [JObj [(''type'', JStr ''text''), (''text'', JStr ''hello'')]]),
                   (''cache_control'', JObj [(''type'', JStr ''ephemeral'')])],
             JObj [(''role'', JStr ''assistant''),
                   (''content'',
                      JArr [JObj [(''type'', JStr ''text''), (''text'', JStr ''Hi.'')]])]]"
    by code_simp
  show ?thesis
    using c f n m0 1 [unfolded i] 2 [unfolded o] 3 4 by simp
qed

section \<open>Tool result conversion\<close>

text \<open>
  C5. A tool result with an error gives a tool-result block whose content is the error
  text, with \<open>is_error\<close> true, whatever output and image it has. Without an error
  the content is the list of the text block of the output, if there is one, and the image
  block of the image, if there is one, with \<open>is_error\<close> false. This block, alone
  in a user message, is what the loop appends when the tool run returns.
\<close>

theorem tool_result_error_replaces_output:
  "(nonempty (error r) = Some e \<longrightarrow>
      tool_result_param r i =
        JObj [(''type'', JStr ''tool_result''), (''content'', JStr e),
              (''tool_use_id'', JStr i), (''is_error'', JBool True)])
   \<and> (nonempty (error r) = None \<longrightarrow>
      tool_result_param r i =
        JObj [(''type'', JStr ''tool_result''),
              (''content'',
                 JArr ((case nonempty (output_str r) of
                          Some out \<Rightarrow> [JObj [(''type'', JStr ''text''), (''text'', JStr out)]]
                        | None \<Rightarrow> [])
                     @ (case nonempty (base64_image r) of
                          Some img \<Rightarrow>
                            [JObj [(''type'', JStr ''image''),
                                   (''source'', JObj [(''type'', JStr ''base64''),
                                                      (''media_type'', JStr ''image/png''),
                                                      (''data'', JStr img)])]]
                        | None \<Rightarrow> []))),
              (''tool_use_id'', JStr i), (''is_error'', JBool False)])
   \<and> (tool_collection_run env (world st) n inp = (Inr r, w) \<longrightarrow>
        messages (snd (snd (process_block env (ToolUseBlock (Some i) (Some n) (Some inp))
                              (ps, st)))) =
          messages st
          @ [JObj [(''content'', JArr [tool_result_param r i]), (''role'', JStr ''user'')]])"
proof -
  have "messages (snd (snd (process_block env (ToolUseBlock (Some i) (Some n) (Some inp))
                              (ps, st)))) =
          messages st
          @ [JObj [(''content'', JArr [tool_result_param r i]), (''role'', JStr ''user'')]]"
    if "tool_collection_run env (world st) n inp = (Inr r, w)"
    using that by (simp add: print_def tool_result_message_def)
  then show ?thesis
    by (simp add: tool_result_param_def tool_result_content_def text_param_def image_param_def
          split: option.splits)
qed

text \<open>
  An instance of C5 for a result with an error, an output and an image, one for a result
  with an output and an image, and the message the loop appends for a listing.
\<close>

theorem tool_result_error_replaces_output_witness:
  "nonempty (error \<lparr>output_str = Some ''partial'', error = Some ''permission denied'',
                     base64_image = Some ''aGk=''\<rparr>) = Some ''permission denied''
   \<and> tool_result_param
        \<lparr>output_str = Some ''partial'', error = Some ''permission denied'',
         base64_image = Some ''aGk=''\<rparr> ''toolu_1''
     = JObj [(''type'', JStr ''tool_result''), (''content'', JStr ''permission denied''),
             (''tool_use_id'', JStr ''toolu_1''), (''is_error'', JBool True)]
   \<and> nonempty (error \<lparr>output_str = Some ''a.txt'', error = None,
                       base64_image = Some ''aGk=''\<rparr>) = None
   \<and> tool_result_param
        \<lparr>output_str = Some ''a.txt'', error = None, base64_image = Some ''aGk=''\<rparr> ''toolu_2''
     = JObj [(''type'', JStr ''tool_result''),
             (''content'',
                JArr [JObj [(''type'', JStr ''text''), (''text'', JStr ''a.txt'')],
                      JObj [(''type'', JStr ''image''),
                            (''source'', JObj [(''type'', JStr ''base64''),
                                               (''media_type'', JStr ''image/png''),
                                               (''data'', JStr ''aGk='')])]]),
             (''tool_use_id'', JStr ''toolu_2''), (''is_error'', JBool False)]
   \<and> tool_collection_run (scripted_env []) (world (session [user_message ''list files'']))
        ''bash'' (JObj [(''command'', JStr ''ls'')])
     = (Inr \<lparr>output_str = Some (''a.txt'' @ CHR 0x0A # ''b.txt''), error = None,
              base64_image = None\<rparr>, 0)
   \<and> messages (snd (snd (process_block (scripted_env [])
        (ToolUseBlock (Some ''toolu_3'') (Some ''bash'') (Some (JObj [(''command'', JStr ''ls'')])))
        ([], session [user_message ''list files'']))))
     = [JObj [(''role'', JStr ''user''),
              (''content'',
                 JArr [JObj [(''type'', JStr ''text''), (''text'', JStr ''list files'')]])],
        JObj [(''content'',
               JArr [JObj [(''type'', JStr ''tool_result''),
                           (''content'',
                              JArr [JObj [(''type'', JStr ''text''),
                                          (''text'', JStr (''a.txt'' @ CHR 0x0A # ''b.txt''))]]),
                           (''tool_use_id'', JStr ''toolu_3''),
                           (''is_error'', JBool False)]]),
              (''role'', JStr ''user'')]]"
proof -
  let ?r1 = "\<lparr>output_str = Some ''partial'', error = Some ''permission denied'',
              base64_image = Some ''aGk=''\<rparr>"
  let ?r2 = "\<lparr>output_str = Some ''a.txt'', error = None, base64_image = Some ''aGk=''\<rparr>"
  let ?r3 = "\<lparr>output_str = Some (''a.txt'' @ CHR 0x0A # ''b.txt''), error = None,
              base64_image = None\<rparr>"
  let ?E = "scripted_env [] :: nat env"
  let ?S = "session [user_message ''list files'']"
  let ?inp = "JObj [(''command'', JStr ''ls'')]"
  have e1: "nonempty (error ?r1) = Some ''permission denied''"
    by simp
  have e2: "nonempty (error ?r2) = None"
    by simp
  have e3: "nonempty (error ?r3) = None"
    by simp
  have run: "tool_collection_run ?E (world ?S) ''bash'' ?inp = (Inr ?r3, 0)"
    by code_simp
  have m: "messages ?S = [JObj [(''role'', JStr ''user''),
              (''content'',
                 JArr [JObj [(''type'', JStr ''text''), (''text'', JStr ''list files'')]])]]"
    by code_simp
  have 1: "tool_result_param ?r1 ''toolu_1''
     = JObj [(''type'', JStr ''tool_result''), (''content'', JStr ''permission denied''),
             (''tool_use_id'', JStr ''toolu_1''), (''is_error'', JBool True)]"
    using tool_result_error_replaces_output
            [of ?r1 "''permission denied''" "''toolu_1''" ?E ?S "''bash''" ?inp 0 "[]"] e1
    by blast
  have 2: "tool_result_param ?r2 ''toolu_2''
     = JObj [(''type'', JStr ''tool_result''),
             (''content'',
                JArr [JObj [(''type'', JStr ''text''), (''text'', JStr ''a.txt'')],
                      JObj [(''type'', JStr ''image''),
                            (''source'', JObj [(''type'', JStr ''base64''),
                                               (''media_type'', JStr ''image/png''),
                                               (''data'', JStr ''aGk='')])]]),
             (''tool_use_id'', JStr ''toolu_2''), (''is_error'', JBool False)]"
    using tool_result_error_replaces_output
            [of ?r2 "''permission denied''" "''toolu_2''" ?E ?S "''bash''" ?inp 0 "[]"] e2
    by simp
  have 3: "tool_result_param ?r3 ''toolu_3''
     = JObj [(''type'', JStr ''tool_result''),
             (''content'',
                JArr [JObj [(''type'', JStr ''text''),
                            (''text'', JStr (''a.txt'' @ CHR 0x0A # ''b.txt''))]]),
             (''tool_use_id'', JStr ''toolu_3''), (''is_error'', JBool False)]
     \<and> messages (snd (snd (process_block ?E
          (ToolUseBlock (Some ''toolu_3'') (Some ''bash'') (Some ?inp)) ([], ?S))))
       = messages ?S
         @ [JObj [(''content'', JArr [tool_result_param ?r3 ''toolu_3'']),
                  (''role'', JStr ''user'')]]"
    using tool_result_error_replaces_output
            [of ?r3 "''permission denied''" "''toolu_3''" ?E ?S "''bash''" ?inp 0 "[]"] e3 run
    by simp
  show ?thesis
    using e1 e2 run 1 2 3 unfolding m by simp
qed

section \<open>Cache annotations of a request\<close>

lemma guarded_annotate: "annotate (guarded env) st = annotate env st"
  by (simp add: annotate_def inject_prompt_caching_def guarded_def)

lemma system_marked:
  "dict_get (system_with_cache st) ''cache_control'' = Some ephemeral"
  by (simp add: system_with_cache_def update_conv')

lemma request_well_cached: "well_cached env (make_request (annotate env st))"
  by (simp add: well_cached_def make_request_def system_marked annotate_def inject_bound)

lemma guarded_process_blocks: "process_blocks (guarded env) bs acc = process_blocks env bs acc"
proof (induction bs arbitrary: acc)
  case Nil
  show ?case by (cases acc) simp
next
  case (Cons b bs)
  obtain ps st where acc: "acc = (ps, st)" by (cases acc)
  have "process_block (guarded env) b (ps, st) = process_block env b (ps, st)"
    by (cases b) (simp_all add: guarded_def split: sum.splits)
  then show ?case
    by (simp add: acc Cons.IH split: prod.splits option.splits)
qed

text \<open>
  C7. The request of every pass has one system block, marked as cacheable, whatever the
  transcript, and its messages carry at most \<open>max_cache_breakpoints\<close> breakpoints
  (none when that maximum is negative). A service that refuses every other request
  leaves each pass as it is.
\<close>

theorem every_request_well_cached:
  "map (\<lambda>b. dict_get b ''cache_control'') (req_system (make_request (annotate env st))) =
     [Some ephemeral]
   \<and> int (breakpoints (req_messages (make_request (annotate env st))))
       \<le> max 0 (max_cache_breakpoints env)
   \<and> turn (guarded env) st = turn env st"
proof -
  have wc: "well_cached env (make_request (annotate env st))"
    by (rule request_well_cached)
  have "client_create (guarded env) (world (annotate env st)) (make_request (annotate env st)) =
          client_create env (world (annotate env st)) (make_request (annotate env st))"
    using wc by (simp add: guarded_def)
  then have "turn (guarded env) st = turn env st"
    by (simp add: turn_def guarded_annotate guarded_process_blocks Let_def
          split: prod.splits api_outcome.splits option.splits)
  then show ?thesis
    using wc by (simp add: well_cached_def)
qed

section \<open>Clearing and saving\<close>

lemma save_messages: "messages (save filename st) = messages st"
  by (simp add: save_def print_def split: file_state.splits sum.splits prod.splits option.splits)

lemma save_json_module: "json_module (save filename st) = json_module st"
  by (simp add: save_def print_def split: sum.splits prod.splits option.splits file_state.splits)

text \<open>
  C8. Clearing an empty transcript leaves it empty.
\<close>

theorem clear_empty_stays_empty:
  assumes "str_split command = first # args" and "lower first = ''/clear''"
    and "messages st = []"
  shows "\<exists>st'. handle_command command st = Inr (True, st') \<and> messages st' = []"
  using assms by (simp add: handle_command_def print_def)

text \<open>
  An instance of C8: the clear command in a fresh session.
\<close>

theorem clear_empty_stays_empty_witness:
  "str_split ''/clear'' = [''/clear''] \<and> lower ''/clear'' = ''/clear''
   \<and> messages (session []) = []
   \<and> (\<exists>st'. handle_command ''/clear'' (session [] :: nat terminal_interface) = Inr (True, st')
            \<and> messages st' = [])"
proof -
  have s: "str_split ''/clear'' = [''/clear'']" by code_simp
  have l: "lower ''/clear'' = ''/clear''" by code_simp
  have m: "messages (session []) = []" by (simp add: session_def new_interface_def)
  show ?thesis
    using clear_empty_stays_empty [OF s l m] s l m by simp
qed

text \<open>
  C9. The save command returns with the transcript it found.
\<close>

theorem save_keeps_transcript:
  assumes "str_split command = first # args" and "lower first = ''/save''"
  shows "\<exists>st'. handle_command command st = Inr (True, st') \<and> messages st' = messages st"
  using assms by (cases args) (simp_all add: handle_command_def print_def save_messages)

text \<open>
  An instance of C9: saving a transcript of one message.
\<close>

theorem save_keeps_transcript_witness:
  "str_split ''/save t.json'' = [''/save'', ''t.json''] \<and> lower ''/save'' = ''/save''
   \<and> (\<exists>st'. handle_command ''/save t.json'' (session [user_message ''hi'']) = Inr (True, st')
            \<and> messages st' = messages (session [user_message ''hi'']))"
proof -
  have s: "str_split ''/save t.json'' = [''/save'', ''t.json'']" by code_simp
  have l: "lower ''/save'' = ''/save''" by code_simp
  show ?thesis
    using save_keeps_transcript [OF s l] s l by simp
qed

section \<open>Saving and loading\<close>

text \<open>
  The encoder and the decoder above make a \<open>json\<close> module that gives back every
  list and every document of the values covered.
\<close>

lemma decode_encode:
  assumes "wf_json v"
  shows "decode (encode indent 0 v) = Some v"
proof -
  obtain c cs where e: "encode indent 0 v = c # cs" and c: "value_start c"
    using encode_head by blast
  have s: "skip_ws (encode indent 0 v) = encode indent 0 v"
    using c by (simp add: e skip_ws_start value_start_def)
  have "parse_value (length (encode indent 0 v)) (encode indent 0 v @ []) = Some (v, [])"
    by (rule parse_encoded(1) [OF assms]) (simp_all add: follow_ok_def)
  moreover have "skip_ws [] = []"
    by (simp add: skip_ws_def)
  ultimately show ?thesis
    by (simp add: decode_def s)
qed

lemma model_json_returns:
  "wf_json (JArr xs) \<Longrightarrow> returning_content model_json (JArr xs)"
  "wf_json doc \<Longrightarrow> returning_document model_json doc"
  by (simp_all add: model_json_def returning_document_def decode_encode startswith_def
        del: encode.simps, simp)

text \<open>
  A message whose content comes back is saved as a dictionary with its role and a
  string, from which the load command rebuilds the role and the content.
\<close>

lemma subscript_dict_get: "dict_get m k = Some v \<Longrightarrow> subscript m k = Inr v"
  by (cases m) simp_all

lemma returning_message_saved:
  assumes "returning_message jm m"
  shows "\<exists>r c d. role_and_content m = (Some r, Some c)
           \<and> serializable_msg jm m = Inr (JObj [(''role'', r), (''content'', JStr d)])
           \<and> load_msg jm (JObj [(''role'', r), (''content'', JStr d)])
               = Inr (JObj [(''role'', r), (''content'', c)])"
proof -
  obtain r c where rc: "role_and_content m = (Some r, Some c)" "returning_content jm c"
    using assms by (auto simp: returning_message_def split: option.splits prod.splits)
  then have sub: "subscript m ''role'' = Inr r" "subscript m ''content'' = Inr c"
    by (simp_all add: role_and_content_def subscript_dict_get)
  show ?thesis
  proof (cases "\<exists>s. c = JStr s")
    case True
    then obtain s where s: "c = JStr s" by blast
    have 1: "serializable_msg jm m = Inr (JObj [(''role'', r), (''content'', JStr s)])"
      by (simp add: serializable_msg_def sub s)
    have 2: "load_msg jm (JObj [(''role'', r), (''content'', JStr s)])
               = Inr (JObj [(''role'', r), (''content'', c)])"
      using rc(2) by (auto simp: load_msg_def s split: sum.splits)
    show ?thesis
      using rc(1) 1 2 by blast
  next
    case False
    then obtain d where d: "json_dumps jm c = Inr d" "startswith d ''[''" "json_loads jm d = Inr c"
      using rc(2) by (cases c) (auto split: sum.splits)
    have 1: "serializable_msg jm m = Inr (JObj [(''role'', r), (''content'', JStr d)])"
      using False d(1) by (cases c) (auto simp: serializable_msg_def sub)
    have 2: "load_msg jm (JObj [(''role'', r), (''content'', JStr d)])
               = Inr (JObj [(''role'', r), (''content'', c)])"
      by (simp add: load_msg_def d)
    show ?thesis
      using rc(1) 1 2 by blast
  qed
qed

lemma save_then_load_messages:
  assumes "\<forall>m \<in> set T. returning_message jm m"
  shows "\<exists>ds ms. serializable_messages jm T = Inr ds
           \<and> (\<forall>acc. load_messages jm ds acc = (acc @ ms, None))
           \<and> map role_and_content ms = map role_and_content T"
  using assms
proof (induction T)
  case Nil
  show ?case by simp
next
  case (Cons m T)
  obtain r c d where rc: "role_and_content m = (Some r, Some c)"
    and ser: "serializable_msg jm m = Inr (JObj [(''role'', r), (''content'', JStr d)])"
    and bk: "load_msg jm (JObj [(''role'', r), (''content'', JStr d)])
               = Inr (JObj [(''role'', r), (''content'', c)])"
    using returning_message_saved [of jm m] Cons.prems by auto
  let ?d = "JObj [(''role'', r), (''content'', JStr d)]"
  let ?m = "JObj [(''role'', r), (''content'', c)]"
  obtain ds ms where ih: "serializable_messages jm T = Inr ds"
      "\<forall>acc. load_messages jm ds acc = (acc @ ms, None)"
      "map role_and_content ms = map role_and_content T"
    using Cons.IH Cons.prems by auto
  have 1: "serializable_messages jm (m # T) = Inr (?d # ds)"
    by (simp add: ser ih(1))
  have 2: "\<forall>acc. load_messages jm (?d # ds) acc = (acc @ ?m # ms, None)"
    using bk ih(2) by simp
  have 3: "map role_and_content (?m # ms) = map role_and_content (m # T)"
    using rc ih(3) by (simp add: role_and_content_def)
  show ?case
    using 1 2 3 by (intro exI [of _ "?d # ds"] exI [of _ "?m # ms"]) simp
qed

lemma load_after_save:
  assumes "files st filename \<noteq> Unreadable"
    and "\<forall>m \<in> set (messages st). returning_message (json_module st) m"
    and "\<forall>ds. serializable_messages (json_module st) (messages st) = Inr ds \<longrightarrow>
           returning_document (json_module st) (JArr ds)"
    and "files st' filename = files (save filename st) filename"
    and "json_module st' = json_module st"
  shows "map role_and_content (messages (load filename st')) = map role_and_content (messages st)"
proof -
  obtain ds ms where ds: "serializable_messages (json_module st) (messages st) = Inr ds"
      "\<forall>acc. load_messages (json_module st) ds acc = (acc @ ms, None)"
      "map role_and_content ms = map role_and_content (messages st)"
    using save_then_load_messages [OF assms(2)] by blast
  obtain written where w: "json_dump (json_module st) (JArr ds) 2 = (written, None)"
      "json_loads (json_module st) written = Inr (JArr ds)"
    using assms(3) ds(1) by (auto simp: returning_document_def split: prod.splits option.splits)
  have f: "files (save filename st) filename = Contents written"
    using assms(1) by (simp add: save_def ds(1) w(1) print_def split: file_state.splits)
  have "messages (load filename st') = ms"
    unfolding load_def assms(4) f using ds(2) by (simp add: print_def assms(5) w(2))
  then show ?thesis
    by (simp add: ds(3))
qed

text \<open>
  C6, as the code has it. The values are those of type \<open>json\<close>: \<open>None\<close>,
  truth values, integers, strings of code points below 256, lists and dictionaries.
  Let every message of the transcript have a role and a content that is either a value
  other than a string that \<open>json.dumps\<close> writes as a text starting with a bracket and
  \<open>json.loads\<close> reads back as the same value, or a string that does not both start
  with a bracket and decode as JSON; and let \<open>json.load\<close> read the document that
  \<open>json.dump\<close> writes as that document. Then the save command writes a file such
  that the load command, in any session that finds this file, whatever its own
  transcript, ends with the same roles and the same contents in the same order.
\<close>

theorem save_then_load_returns_contents:
  assumes "str_split save_command = s # filename # more_s" and "lower s = ''/save''"
    and "str_split load_command = l # filename # more_l" and "lower l = ''/load''"
    and "files (st :: 'w terminal_interface) filename \<noteq> Unreadable"
    and "\<forall>m \<in> set (messages st). returning_message (json_module st) m"
    and "\<forall>ds. serializable_messages (json_module st) (messages st) = Inr ds \<longrightarrow>
           returning_document (json_module st) (JArr ds)"
  shows "\<exists>st1. handle_command save_command st = Inr (True, st1)
           \<and> (\<forall>st' :: 'w terminal_interface. files st' filename = files st1 filename \<and> json_module st' = json_module st \<longrightarrow>
                 (\<exists>st2. handle_command load_command st' = Inr (True, st2)
                    \<and> map role_and_content (messages st2) = map role_and_content (messages st)))"
proof -
  have 1: "handle_command save_command st = Inr (True, save filename st)"
    using assms(1,2) by (simp add: handle_command_def)
  have 2: "handle_command load_command st' = Inr (True, load filename st')" for st' :: "'w terminal_interface"
    using assms(3,4) by (simp add: handle_command_def)
  have 3: "\<exists>st2. handle_command load_command st' = Inr (True, st2)
             \<and> map role_and_content (messages st2) = map role_and_content (messages st)"
    if "files st' filename = files (save filename st) filename \<and> json_module st' = json_module st"
    for st' :: "'w terminal_interface"
    using that 2 [of st'] load_after_save [OF assms(5,6,7), of st'] by simp
  show ?thesis
    using 1 3 by blast
qed

text \<open>
  An instance of C6: a transcript with a text message, a tool-result message and two
  messages with a string as content is saved, the transcript is cleared, and the file is
  loaded. The roles and contents loaded are written out.
\<close>

theorem save_then_load_returns_contents_witness:
  "str_split ''/save t.json'' = [''/save'', ''t.json''] \<and> lower ''/save'' = ''/save''
   \<and> str_split ''/load t.json'' = [''/load'', ''t.json''] \<and> lower ''/load'' = ''/load''
   \<and> files (session [user_message ''list files'', tool_result_message ls_result ''toolu_1'',
                      JObj [(''role'', JStr ''user''), (''content'', JStr ''hi'')],
                      JObj [(''role'', JStr ''user''), (''content'', JStr ''[not json'')]])
          ''t.json'' \<noteq> Unreadable
   \<and> (\<exists>st1 st2 st3.
          handle_command ''/save t.json''
            (session [user_message ''list files'', tool_result_message ls_result ''toolu_1'',
                      JObj [(''role'', JStr ''user''), (''content'', JStr ''hi'')],
                      JObj [(''role'', JStr ''user''), (''content'', JStr ''[not json'')]])
            = Inr (True, st1)
        \<and> handle_command ''/clear'' st1 = Inr (True, st2)
        \<and> messages st2 = []
        \<and> handle_command ''/load t.json'' st2 = Inr (True, st3)
        \<and> map role_and_content (messages st3) =
            [(Some (JStr ''user''),
              Some (JArr [JObj [(''type'', JStr ''text''), (''text'', JStr ''list files'')]])),
             (Some (JStr ''user''),
              Some (JArr [JObj [(''type'', JStr ''tool_result''),
                                (''content'',
                                   JArr [JObj [(''type'', JStr ''text''),
                                               (''text'', JStr (''a.txt'' @ CHR 0x0A # ''b.txt''))]]),
                                (''tool_use_id'', JStr ''toolu_1''),
                                (''is_error'', JBool False)]])),
             (Some (JStr ''user''), Some (JStr ''hi'')),
             (Some (JStr ''user''), Some (JStr ''[not json''))])"
proof -
  let ?S = "session [user_message ''list files'', tool_result_message ls_result ''toolu_1'',
                     JObj [(''role'', JStr ''user''), (''content'', JStr ''hi'')],
                     JObj [(''role'', JStr ''user''), (''content'', JStr ''[not json'')]]"
  have s: "str_split ''/save t.json'' = [''/save'', ''t.json'']" by code_simp
  have ls: "lower ''/save'' = ''/save''" by code_simp
  have l: "str_split ''/load t.json'' = [''/load'', ''t.json'']" by code_simp
  have ll: "lower ''/load'' = ''/load''" by code_simp
  have c: "str_split ''/clear'' = [''/clear'']" by code_simp
  have lc: "lower ''/clear'' = ''/clear''" by code_simp
  have f: "files ?S ''t.json'' \<noteq> Unreadable"
    by (simp add: session_def new_interface_def)
  have r: "\<forall>m \<in> set (messages ?S). returning_message (json_module ?S) m"
    by code_simp
  have "case serializable_messages (json_module ?S) (messages ?S) of
          Inl e \<Rightarrow> False
        | Inr ds \<Rightarrow> returning_document (json_module ?S) (JArr ds)"
    by code_simp
  then have d: "\<forall>ds. serializable_messages (json_module ?S) (messages ?S) = Inr ds \<longrightarrow>
                  returning_document (json_module ?S) (JArr ds)"
    by (simp split: sum.splits)
  have rc: "map role_and_content (messages ?S) =
            [(Some (JStr ''user''),
              Some (JArr [JObj [(''type'', JStr ''text''), (''text'', JStr ''list files'')]])),
             (Some (JStr ''user''),
              Some (JArr [JObj [(''type'', JStr ''tool_result''),
                                (''content'',
                                   JArr [JObj [(''type'', JStr ''text''),
                                               (''text'', JStr (''a.txt'' @ CHR 0x0A # ''b.txt''))]]),
                                (''tool_use_id'', JStr ''toolu_1''),
                                (''is_error'', JBool False)]])),
             (Some (JStr ''user''), Some (JStr ''hi'')),
             (Some (JStr ''user''), Some (JStr ''[not json''))]"
    by code_simp
  obtain st1 where st1: "handle_command ''/save t.json'' ?S = Inr (True, st1)"
    and bk: "\<And>st' :: nat terminal_interface. files st' ''t.json'' = files st1 ''t.json'' \<and> json_module st' = json_module ?S
                 \<Longrightarrow> \<exists>st2. handle_command ''/load t.json'' st' = Inr (True, st2)
                          \<and> map role_and_content (messages st2) = map role_and_content (messages ?S)"
    using save_then_load_returns_contents [OF s ls l ll f r d] by blast
  have "st1 = save ''t.json'' ?S"
    using st1 by (simp add: handle_command_def s ls)
  then have j: "json_module st1 = json_module ?S"
    by (simp add: save_json_module)
  let ?st2 = "print [''Chat history cleared.'' @ nl] (st1\<lparr>messages := []\<rparr>)"
  have cl: "handle_command ''/clear'' st1 = Inr (True, ?st2)"
    by (simp add: handle_command_def c lc)
  have e: "messages ?st2 = []"
    by (simp add: print_def)
  have "files ?st2 ''t.json'' = files st1 ''t.json'' \<and> json_module ?st2 = json_module ?S"
    using j by (simp add: print_def)
  from bk [OF this] obtain st3 where h1: "handle_command ''/load t.json'' ?st2 = Inr (True, st3)"
    and h2: "map role_and_content (messages st3) = map role_and_content (messages ?S)"
    by blast
  show ?thesis
    by (intro conjI s ls l ll f exI [of _ st1] exI [of _ ?st2] exI [of _ st3]
          st1 cl e h1 h2 [unfolded rc])
qed

text \<open>
  C6 as stated fails: the string content \<open>[]\<close> is saved as it is, and the load
  command, finding that it starts with a bracket and decodes, replaces it by the empty
  list.
\<close>

theorem raw_string_content_counterexample:
  "handle_command ''/save t.json''
     (session [JObj [(''role'', JStr ''user''), (''content'', JStr ''[]'')]])
   = Inr (True, save ''t.json'' (session [JObj [(''role'', JStr ''user''), (''content'', JStr ''[]'')]]))
   \<and> files (save ''t.json'' (session [JObj [(''role'', JStr ''user''), (''content'', JStr ''[]'')]]))
        ''t.json''
     = Contents (''['' @ CHR 0x0A # ''  {'' @ CHR 0x0A # ''    '' @ CHR 0x22 # ''role'' @ CHR 0x22 # '': ''
                 @ CHR 0x22 # ''user'' @ CHR 0x22 # '','' @ CHR 0x0A # ''    '' @ CHR 0x22 # ''content''
                 @ CHR 0x22 # '': '' @ CHR 0x22 # ''[]'' @ CHR 0x22 # CHR 0x0A # ''  }'' @ CHR 0x0A # '']'')
   \<and> handle_command ''/load t.json''
       (save ''t.json'' (session [JObj [(''role'', JStr ''user''), (''content'', JStr ''[]'')]]))
     = Inr (True, load ''t.json''
         (save ''t.json'' (session [JObj [(''role'', JStr ''user''), (''content'', JStr ''[]'')]])))
   \<and> messages (load ''t.json''
         (save ''t.json'' (session [JObj [(''role'', JStr ''user''), (''content'', JStr ''[]'')]])))
     = [JObj [(''role'', JStr ''user''), (''content'', JArr [])]]
   \<and> map role_and_content (messages (load ''t.json''
         (save ''t.json'' (session [JObj [(''role'', JStr ''user''), (''content'', JStr ''[]'')]]))))
     \<noteq> map role_and_content
         (messages (session [JObj [(''role'', JStr ''user''), (''content'', JStr ''[]'')]]))"
proof -
  have s: "str_split ''/save t.json'' = [''/save'', ''t.json'']" by code_simp
  have ls: "lower ''/save'' = ''/save''" by code_simp
  have l: "str_split ''/load t.json'' = [''/load'', ''t.json'']" by code_simp
  have ll: "lower ''/load'' = ''/load''" by code_simp
  have w: "files (save ''t.json'' (session [JObj [(''role'', JStr ''user''), (''content'', JStr ''[]'')]]))
        ''t.json''
     = Contents (''['' @ CHR 0x0A # ''  {'' @ CHR 0x0A # ''    '' @ CHR 0x22 # ''role'' @ CHR 0x22 # '': ''
                 @ CHR 0x22 # ''user'' @ CHR 0x22 # '','' @ CHR 0x0A # ''    '' @ CHR 0x22 # ''content''
                 @ CHR 0x22 # '': '' @ CHR 0x22 # ''[]'' @ CHR 0x22 # CHR 0x0A # ''  }'' @ CHR 0x0A # '']'')"
    by code_simp
  have m: "messages (load ''t.json''
         (save ''t.json'' (session [JObj [(''role'', JStr ''user''), (''content'', JStr ''[]'')]])))
     = [JObj [(''role'', JStr ''user''), (''content'', JArr [])]]"
    by code_simp
  have n: "map role_and_content [JObj [(''role'', JStr ''user''), (''content'', JArr [])]]
     \<noteq> map role_and_content
         (messages (session [JObj [(''role'', JStr ''user''), (''content'', JStr ''[]'')]]))"
    by code_simp
  show ?thesis
    unfolding m w using n by (simp add: handle_command_def s ls l ll)
qed

end
